theory Spec2Isabelle
  imports Main
begin

section \<open>Data model\<close>

text \<open>
  A shallow embedding of the two control loops of the alert-rule operator:
  \<^verbatim>\<open>internal/controller/deployment_controller.go\<close> (DeploymentReconciler),
  \<^verbatim>\<open>internal/controller/alertrule_controller.go\<close> (AlertRuleReconciler producing a
  PrometheusRule object) and the second AlertRuleReconciler of the repository, which
  produces a ConfigMap holding a YAML text.

  Objects are identified by \<^verbatim>\<open>types.NamespacedName\<close>, a pair (namespace, name).
  A Go \<^verbatim>\<open>map[string]string\<close> read by the code is an optional association list:
  \<open>None\<close> is the nil map, the list holds the entries in the order in which
  \<^verbatim>\<open>range\<close> visits them in this run (Go leaves that order unspecified) and its keys are
  distinct. A map built by the code is a HOL map, compared extensionally.
  Times are natural numbers, 0 being Go's zero time.
\<close>

type_synonym key = "string \<times> string"
type_synonym gomap = "(string \<times> string) list option"

text \<open>
  The entries of a Go map (none for the nil map), the value it holds for a key, the
  invariant that no key occurs twice, and the relation between two enumerations of the
  same map: both nil or both not, and the same value for every key.
\<close>

definition entries :: "gomap \<Rightarrow> (string \<times> string) list" where
  "entries m = (case m of None \<Rightarrow> [] | Some es \<Rightarrow> es)"

definition gomap_lookup :: "gomap \<Rightarrow> string \<rightharpoonup> string" where
  "gomap_lookup m = map_of (entries m)"

definition gomap_ok :: "gomap \<Rightarrow> bool" where
  "gomap_ok m = distinct (map fst (entries m))"

definition same_gomap :: "gomap \<Rightarrow> gomap \<Rightarrow> bool" where
  "same_gomap m1 m2 =
     (gomap_ok m1 \<and> gomap_ok m2 \<and> (m1 = None) = (m2 = None) \<and>
      gomap_lookup m1 = gomap_lookup m2)"

datatype api_error = NotFound | AlreadyExists | Conflict | Unavailable

record OwnerReference =
  or_APIVersion :: string
  or_Kind :: string
  or_Name :: string
  or_UID :: string
  or_Controller :: "bool option"
  or_BlockOwnerDeletion :: "bool option"

record Deployment =
  d_APIVersion :: string
  d_Kind :: string
  d_Name :: string
  d_Namespace :: string
  d_UID :: string
  d_DeletionTimestamp :: "nat option"

datatype ConditionStatus = ConditionTrue | ConditionFalse | ConditionUnknown

record Condition =
  c_Type :: string
  c_Status :: ConditionStatus
  c_Reason :: string
  c_Message :: string
  c_LastTransitionTime :: nat
  c_ObservedGeneration :: int

record DeploymentReference =
  ref_Namespace :: string
  ref_Name :: string

record AlertRuleSpec =
  spec_Alert :: string
  spec_Expr :: string
  spec_Severity :: string
  spec_For :: string
  spec_Labels :: gomap
  spec_Annotations :: gomap
  spec_DeploymentRef :: "DeploymentReference option"

record AlertRuleStatus =
  st_Conditions :: "Condition list"

record AlertRule =
  ar_APIVersion :: string
  ar_Kind :: string
  ar_Name :: string
  ar_Namespace :: string
  ar_Labels :: gomap
  ar_UID :: string
  ar_Generation :: int
  ar_DeletionTimestamp :: "nat option"
  ar_OwnerReferences :: "OwnerReference list"
  ar_Spec :: AlertRuleSpec
  ar_Status :: AlertRuleStatus

text \<open>\<^verbatim>\<open>map[string]interface{}\<close> values of the unstructured PrometheusRule object.\<close>

datatype jvalue =
    JString string
  | JObject "string \<Rightarrow> jvalue option"
  | JArray "jvalue list"

record PrometheusRule =
  pr_Group :: string
  pr_Version :: string
  pr_Kind :: string
  pr_Name :: string
  pr_Namespace :: string
  pr_Labels :: "string \<rightharpoonup> string"
  pr_OwnerReferences :: "OwnerReference list"
  pr_UID :: string
  pr_ResourceVersion :: string
  pr_spec :: "string \<rightharpoonup> jvalue"

text \<open>\<^verbatim>\<open>(*metav1.Time).IsZero\<close>: a nil pointer or the zero time.\<close>

definition IsZero :: "nat option \<Rightarrow> bool" where
  "IsZero t = (case t of None \<Rightarrow> True | Some n \<Rightarrow> n = 0)"

text \<open>A string between double quotes, as the formats write it, and the newline.\<close>

definition quoted :: "string \<Rightarrow> string" where
  "quoted s = [CHR 0x22] @ s @ [CHR 0x22]"

definition newline :: string where
  "newline = [CHR 0x0A]"

section \<open>The object store\<close>

text \<open>
  The cluster holds one map per kind. Every client call consumes one entry of the script
  \<open>faults\<close>: \<open>Some e\<close> makes the call fail with \<open>e\<close> and leave the store as it is
  (a transient error, a conflict, a stale read), \<open>None\<close> or an exhausted script lets the
  call act on the store. \<open>clock\<close> is what \<^verbatim>\<open>metav1.Now()\<close> returns.
\<close>

record cluster =
  deployments :: "key \<rightharpoonup> Deployment"
  alertRules :: "key \<rightharpoonup> AlertRule"
  prometheusRules :: "key \<rightharpoonup> PrometheusRule"
  faults :: "api_error option list"
  clock :: nat

definition store_get :: "api_error option \<Rightarrow> (key \<rightharpoonup> 'a) \<Rightarrow> key \<Rightarrow> api_error + 'a" where
  "store_get fault m k =
     (case fault of
        Some e \<Rightarrow> Inl e
      | None \<Rightarrow> (case m k of None \<Rightarrow> Inl NotFound | Some x \<Rightarrow> Inr x))"

definition store_create ::
  "api_error option \<Rightarrow> (key \<rightharpoonup> 'a) \<Rightarrow> key \<Rightarrow> 'a \<Rightarrow> api_error option \<times> (key \<rightharpoonup> 'a)" where
  "store_create fault m k x =
     (case fault of
        Some e \<Rightarrow> (Some e, m)
      | None \<Rightarrow> (case m k of Some y \<Rightarrow> (Some AlreadyExists, m) | None \<Rightarrow> (None, m(k \<mapsto> x))))"

definition store_update ::
  "api_error option \<Rightarrow> (key \<rightharpoonup> 'a) \<Rightarrow> key \<Rightarrow> 'a \<Rightarrow> api_error option \<times> (key \<rightharpoonup> 'a)" where
  "store_update fault m k x =
     (case fault of
        Some e \<Rightarrow> (Some e, m)
      | None \<Rightarrow> (case m k of None \<Rightarrow> (Some NotFound, m) | Some y \<Rightarrow> (None, m(k \<mapsto> x))))"

definition store_delete ::
  "api_error option \<Rightarrow> (key \<rightharpoonup> 'a) \<Rightarrow> key \<Rightarrow> api_error option \<times> (key \<rightharpoonup> 'a)" where
  "store_delete fault m k =
     (case fault of
        Some e \<Rightarrow> (Some e, m)
      | None \<Rightarrow> (case m k of None \<Rightarrow> (Some NotFound, m) | Some y \<Rightarrow> (None, m(k := None))))"

definition peek_fault :: "api_error option list \<Rightarrow> api_error option" where
  "peek_fault fs = (case fs of [] \<Rightarrow> None | f # rest \<Rightarrow> f)"

definition next_fault :: "cluster \<Rightarrow> api_error option \<times> cluster" where
  "next_fault w = (peek_fault (faults w), w\<lparr>faults := tl (faults w)\<rparr>)"

definition Get_Deployment :: "key \<Rightarrow> cluster \<Rightarrow> (api_error + Deployment) \<times> cluster" where
  "Get_Deployment k w =
     (case next_fault w of (f, w') \<Rightarrow> (store_get f (deployments w') k, w'))"

definition Get_AlertRule :: "key \<Rightarrow> cluster \<Rightarrow> (api_error + AlertRule) \<times> cluster" where
  "Get_AlertRule k w =
     (case next_fault w of (f, w') \<Rightarrow> (store_get f (alertRules w') k, w'))"

definition Create_AlertRule :: "AlertRule \<Rightarrow> cluster \<Rightarrow> api_error option \<times> cluster" where
  "Create_AlertRule obj w =
     (case next_fault w of (f, w') \<Rightarrow>
        (case store_create f (alertRules w') (ar_Namespace obj, ar_Name obj) obj of
           (err, m) \<Rightarrow> (err, w'\<lparr>alertRules := m\<rparr>)))"

definition Update_AlertRule :: "AlertRule \<Rightarrow> cluster \<Rightarrow> api_error option \<times> cluster" where
  "Update_AlertRule obj w =
     (case next_fault w of (f, w') \<Rightarrow>
        (case store_update f (alertRules w') (ar_Namespace obj, ar_Name obj) obj of
           (err, m) \<Rightarrow> (err, w'\<lparr>alertRules := m\<rparr>)))"

definition Delete_AlertRule :: "AlertRule \<Rightarrow> cluster \<Rightarrow> api_error option \<times> cluster" where
  "Delete_AlertRule obj w =
     (case next_fault w of (f, w') \<Rightarrow>
        (case store_delete f (alertRules w') (ar_Namespace obj, ar_Name obj) of
           (err, m) \<Rightarrow> (err, w'\<lparr>alertRules := m\<rparr>)))"

section \<open>DeploymentReconciler\<close>

text \<open>
  \<^verbatim>\<open>ctrl.SetControllerReference\<close> belongs to the controller-runtime library, not to the
  repository. It is modelled after the library: the owner must not be namespaced
  differently from the object, its group/version/kind is looked up in the scheme
  (\<open>None\<close>: the type is not registered), an object that already has another controller is
  refused, and otherwise the reference is stored in place of the one for the same owner
  or appended. \<open>None\<close> is an error, on which the object is left as it was.
\<close>

type_synonym Scheme = "(string \<times> string \<times> string) option"

definition ParseGroupVersion :: "string \<Rightarrow> (string \<times> string) option" where
  "ParseGroupVersion gv =
     (if gv = [] \<or> gv = ''/'' then Some ([], [])
      else if count_list gv (CHR ''/'') = 0 then Some ([], gv)
      else if count_list gv (CHR ''/'') = 1
        then Some (takeWhile (\<lambda>c. c \<noteq> CHR ''/'') gv, tl (dropWhile (\<lambda>c. c \<noteq> CHR ''/'') gv))
      else None)"

definition referSameObject :: "OwnerReference \<Rightarrow> OwnerReference \<Rightarrow> bool" where
  "referSameObject a b =
     (case ParseGroupVersion (or_APIVersion a) of
        None \<Rightarrow> False
      | Some aGV \<Rightarrow>
         (case ParseGroupVersion (or_APIVersion b) of
            None \<Rightarrow> False
          | Some bGV \<Rightarrow> fst aGV = fst bGV \<and> or_Kind a = or_Kind b \<and> or_Name a = or_Name b))"

fun GetControllerOf :: "OwnerReference list \<Rightarrow> OwnerReference option" where
  "GetControllerOf [] = None"
| "GetControllerOf (r # rs) =
     (if or_Controller r = Some True then Some r else GetControllerOf rs)"

fun upsertOwnerRef :: "OwnerReference \<Rightarrow> OwnerReference list \<Rightarrow> OwnerReference list" where
  "upsertOwnerRef ref [] = [ref]"
| "upsertOwnerRef ref (r # rs) =
     (if referSameObject r ref then ref # rs else r # upsertOwnerRef ref rs)"

definition GroupVersion_String :: "string \<Rightarrow> string \<Rightarrow> string" where
  "GroupVersion_String g v = (if g = [] then v else g @ ''/'' @ v)"

definition SetControllerReference :: "Scheme \<Rightarrow> Deployment \<Rightarrow> AlertRule \<Rightarrow> AlertRule option" where
  "SetControllerReference scheme owner controlled =
     (if d_Namespace owner \<noteq> [] \<and>
         (ar_Namespace controlled = [] \<or> d_Namespace owner \<noteq> ar_Namespace controlled)
      then None
      else
        (case scheme of
           None \<Rightarrow> None
         | Some (g, v, k) \<Rightarrow>
            (let ref = \<lparr>or_APIVersion = GroupVersion_String g v, or_Kind = k,
                        or_Name = d_Name owner, or_UID = d_UID owner,
                        or_Controller = Some True, or_BlockOwnerDeletion = Some True\<rparr>
             in (case GetControllerOf (ar_OwnerReferences controlled) of
                   None \<Rightarrow>
                     Some (controlled\<lparr>ar_OwnerReferences :=
                             upsertOwnerRef ref (ar_OwnerReferences controlled)\<rparr>)
                 | Some existing \<Rightarrow>
                     if referSameObject existing ref
                     then Some (controlled\<lparr>ar_OwnerReferences :=
                             upsertOwnerRef ref (ar_OwnerReferences controlled)\<rparr>)
                     else None))))"

text \<open>
  \<^verbatim>\<open>createDefaultAlertRule\<close>: the literal, then the controller reference; an error of
  \<^verbatim>\<open>SetControllerReference\<close> is logged and the literal is returned.
\<close>

definition createDefaultAlertRule :: "Scheme \<Rightarrow> Deployment \<Rightarrow> string \<Rightarrow> AlertRule" where
  "createDefaultAlertRule scheme deployment name =
     (let alertRule =
        \<lparr>ar_APIVersion = [], ar_Kind = [],
         ar_Name = name,
         ar_Namespace = d_Namespace deployment,
         ar_Labels = Some [(''app'', d_Name deployment),
                           (''managed-by'', ''alert-rule-operator''),
                           (''deployment.kubernetes.io/name'', d_Name deployment)],
         ar_UID = [], ar_Generation = 0, ar_DeletionTimestamp = None,
         ar_OwnerReferences =
           [\<lparr>or_APIVersion = d_APIVersion deployment, or_Kind = d_Kind deployment,
             or_Name = d_Name deployment, or_UID = d_UID deployment,
             or_Controller = Some True, or_BlockOwnerDeletion = None\<rparr>],
         ar_Spec =
           \<lparr>spec_Alert = d_Name deployment @ ''PodDown'',
            spec_Expr = ''up{job='' @ quoted (d_Name deployment) @ ''} == 0'',
            spec_Severity = ''critical'',
            spec_For = ''1m'',
            spec_Labels = Some [(''deployment'', d_Name deployment),
                                (''namespace'', d_Namespace deployment)],
            spec_Annotations =
              Some [(''summary'', ''Pod '' @ d_Name deployment @ '' is down''),
                    (''description'',
                     ''Pod '' @ d_Name deployment @ '' in namespace '' @ d_Namespace deployment
                       @ '' has been down for more than 1 minutes'')],
            spec_DeploymentRef =
              Some \<lparr>ref_Namespace = d_Namespace deployment, ref_Name = d_Name deployment\<rparr>\<rparr>,
         ar_Status = \<lparr>st_Conditions = []\<rparr>\<rparr>
      in (case SetControllerReference scheme deployment alertRule of
            None \<Rightarrow> alertRule
          | Some owned \<Rightarrow> owned))"

definition deleteAlertRuleForDeployment ::
  "string \<Rightarrow> string \<Rightarrow> cluster \<Rightarrow> api_error option \<times> cluster" where
  "deleteAlertRuleForDeployment namespace deploymentName w =
     (let alertRuleName = deploymentName @ ''-alert'' in
      case Get_AlertRule (namespace, alertRuleName) w of
        (Inl err, w1) \<Rightarrow> if err = NotFound then (None, w1) else (Some err, w1)
      | (Inr alertRule, w1) \<Rightarrow>
          (case Delete_AlertRule alertRule w1 of
             (Some err, w2) \<Rightarrow> if err \<noteq> NotFound then (Some err, w2) else (None, w2)
           | (None, w2) \<Rightarrow> (None, w2)))"

definition DeploymentReconciler_Reconcile ::
  "Scheme \<Rightarrow> key \<Rightarrow> cluster \<Rightarrow> api_error option \<times> cluster" where
  "DeploymentReconciler_Reconcile scheme req w =
     (case Get_Deployment req w of
        (Inl err, w1) \<Rightarrow>
          if err = NotFound then deleteAlertRuleForDeployment (fst req) (snd req) w1
          else (Some err, w1)
      | (Inr deployment, w1) \<Rightarrow>
          if \<not> IsZero (d_DeletionTimestamp deployment) then (None, w1)
          else
            (let alertRuleName = d_Name deployment @ ''-alert'' in
             case Get_AlertRule (fst req, alertRuleName) w1 of
               (Inl err, w2) \<Rightarrow>
                 if err \<noteq> NotFound then (Some err, w2)
                 else Create_AlertRule (createDefaultAlertRule scheme deployment alertRuleName) w2
             | (Inr alertRule, w2) \<Rightarrow>
                 if spec_DeploymentRef (ar_Spec alertRule) = None \<or>
                    ref_Namespace (the (spec_DeploymentRef (ar_Spec alertRule)))
                      \<noteq> d_Namespace deployment \<or>
                    ref_Name (the (spec_DeploymentRef (ar_Spec alertRule))) \<noteq> d_Name deployment
                 then
                   Update_AlertRule
                     (alertRule\<lparr>ar_Spec := (ar_Spec alertRule)\<lparr>spec_DeploymentRef :=
                        Some \<lparr>ref_Namespace = d_Namespace deployment,
                              ref_Name = d_Name deployment\<rparr>\<rparr>\<rparr>) w2
                 else (None, w2)))"

section \<open>AlertRuleReconciler producing a PrometheusRule\<close>

definition Get_PrometheusRule :: "key \<Rightarrow> cluster \<Rightarrow> (api_error + PrometheusRule) \<times> cluster" where
  "Get_PrometheusRule k w =
     (case next_fault w of (f, w') \<Rightarrow> (store_get f (prometheusRules w') k, w'))"

definition Create_PrometheusRule :: "PrometheusRule \<Rightarrow> cluster \<Rightarrow> api_error option \<times> cluster" where
  "Create_PrometheusRule obj w =
     (case next_fault w of (f, w') \<Rightarrow>
        (case store_create f (prometheusRules w') (pr_Namespace obj, pr_Name obj) obj of
           (err, m) \<Rightarrow> (err, w'\<lparr>prometheusRules := m\<rparr>)))"

definition Update_PrometheusRule :: "PrometheusRule \<Rightarrow> cluster \<Rightarrow> api_error option \<times> cluster" where
  "Update_PrometheusRule obj w =
     (case next_fault w of (f, w') \<Rightarrow>
        (case store_update f (prometheusRules w') (pr_Namespace obj, pr_Name obj) obj of
           (err, m) \<Rightarrow> (err, w'\<lparr>prometheusRules := m\<rparr>)))"

definition Delete_PrometheusRule :: "PrometheusRule \<Rightarrow> cluster \<Rightarrow> api_error option \<times> cluster" where
  "Delete_PrometheusRule obj w =
     (case next_fault w of (f, w') \<Rightarrow>
        (case store_delete f (prometheusRules w') (pr_Namespace obj, pr_Name obj) of
           (err, m) \<Rightarrow> (err, w'\<lparr>prometheusRules := m\<rparr>)))"

text \<open>
  \<^verbatim>\<open>r.Status().Update\<close> writes the status subresource only: the stored object keeps its
  other fields.
\<close>

definition Status_Update_AlertRule :: "AlertRule \<Rightarrow> cluster \<Rightarrow> api_error option \<times> cluster" where
  "Status_Update_AlertRule obj w =
     (case next_fault w of (f, w') \<Rightarrow>
        (case f of
           Some e \<Rightarrow> (Some e, w')
         | None \<Rightarrow>
            (case alertRules w' (ar_Namespace obj, ar_Name obj) of
               None \<Rightarrow> (Some NotFound, w')
             | Some stored \<Rightarrow>
                 (None, w'\<lparr>alertRules := (alertRules w')((ar_Namespace obj, ar_Name obj) \<mapsto>
                                stored\<lparr>ar_Status := ar_Status obj\<rparr>)\<rparr>))))"

text \<open>
  \<^verbatim>\<open>for k, v := range m { target[k] = conv(v) }\<close> over the entries in the order of this
  run.
\<close>

fun range_assign :: "('v \<Rightarrow> 'w) \<Rightarrow> (string \<times> 'v) list \<Rightarrow> (string \<rightharpoonup> 'w) \<Rightarrow> (string \<rightharpoonup> 'w)" where
  "range_assign conv [] target = target"
| "range_assign conv ((k, v) # es) target = range_assign conv es (target(k \<mapsto> conv v))"

definition buildPrometheusRule :: "AlertRule \<Rightarrow> (string \<rightharpoonup> jvalue)" where
  "buildPrometheusRule alertRule =
     (let rule0 = [''alert'' \<mapsto> JString (spec_Alert (ar_Spec alertRule)),
                   ''expr'' \<mapsto> JString (spec_Expr (ar_Spec alertRule))];
          rule1 = (if spec_For (ar_Spec alertRule) \<noteq> []
                   then rule0(''for'' \<mapsto> JString (spec_For (ar_Spec alertRule)))
                   else rule0);
          labels0 = [''severity'' \<mapsto> JString (spec_Severity (ar_Spec alertRule))];
          labels = (case spec_Labels (ar_Spec alertRule) of
                      None \<Rightarrow> labels0
                    | Some es \<Rightarrow> range_assign JString es labels0);
          rule2 = rule1(''labels'' \<mapsto> JObject labels)
      in (case spec_Annotations (ar_Spec alertRule) of
            None \<Rightarrow> rule2
          | Some es \<Rightarrow> rule2(''annotations'' \<mapsto> JObject (range_assign JString es Map.empty))))"

text \<open>
  \<^verbatim>\<open>createPrometheusRule\<close>. \<^verbatim>\<open>SetNestedMap\<close> stores the spec under the single key
  \<^verbatim>\<open>spec\<close> of an object that is a map, which cannot fail; \<open>pr_spec\<close> is that value.
\<close>

definition createPrometheusRule :: "AlertRule \<Rightarrow> PrometheusRule" where
  "createPrometheusRule alertRule =
     (let labels0 = [''managed-by'' \<mapsto> ''alert-rule-operator'', ''release'' \<mapsto> ''monitoring''];
          labels = (case ar_Labels alertRule of
                      None \<Rightarrow> labels0
                    | Some es \<Rightarrow> range_assign (\<lambda>v. v) es labels0);
          ownerRef = \<lparr>or_APIVersion = ar_APIVersion alertRule, or_Kind = ar_Kind alertRule,
                      or_Name = ar_Name alertRule, or_UID = ar_UID alertRule,
                      or_Controller = Some True, or_BlockOwnerDeletion = None\<rparr>;
          groups = JArray [JObject [''name'' \<mapsto> JString (ar_Name alertRule @ ''-group''),
                                    ''rules'' \<mapsto> JArray [JObject (buildPrometheusRule alertRule)]]]
      in \<lparr>pr_Group = ''monitoring.coreos.com'', pr_Version = ''v1'', pr_Kind = ''PrometheusRule'',
          pr_Name = ar_Name alertRule,
          pr_Namespace = ar_Namespace alertRule,
          pr_Labels = labels,
          pr_OwnerReferences = [ownerRef],
          pr_UID = [], pr_ResourceVersion = [],
          pr_spec = [''groups'' \<mapsto> groups]\<rparr>)"

definition reconcilePrometheusRule :: "AlertRule \<Rightarrow> cluster \<Rightarrow> api_error option \<times> cluster" where
  "reconcilePrometheusRule alertRule w =
     (let prometheusRuleName = ar_Name alertRule in
      case Get_PrometheusRule (ar_Namespace alertRule, prometheusRuleName) w of
        (Inl err, w1) \<Rightarrow>
          if err \<noteq> NotFound then (Some err, w1)
          else Create_PrometheusRule (createPrometheusRule alertRule) w1
      | (Inr existingRule, w1) \<Rightarrow>
          Update_PrometheusRule
            ((createPrometheusRule alertRule)
               \<lparr>pr_UID := pr_UID existingRule,
                pr_ResourceVersion := pr_ResourceVersion existingRule\<rparr>) w1)"

definition deletePrometheusRule :: "string \<Rightarrow> string \<Rightarrow> cluster \<Rightarrow> api_error option \<times> cluster" where
  "deletePrometheusRule namespace alertRuleName w =
     (let prometheusRuleName = alertRuleName in
      case Get_PrometheusRule (namespace, prometheusRuleName) w of
        (Inl err, w1) \<Rightarrow> if err = NotFound then (None, w1) else (Some err, w1)
      | (Inr prometheusRule, w1) \<Rightarrow>
          (case Delete_PrometheusRule prometheusRule w1 of
             (Some err, w2) \<Rightarrow> if err \<noteq> NotFound then (Some err, w2) else (None, w2)
           | (None, w2) \<Rightarrow> (None, w2)))"

text \<open>
  The loop shared by both \<^verbatim>\<open>updateStatus\<close> functions: the index of the first condition
  of the type, then \<^verbatim>\<open>Conditions[i] = condition\<close>, or \<^verbatim>\<open>append\<close> when none is found.
\<close>

fun findConditionIndex :: "Condition list \<Rightarrow> string \<Rightarrow> nat option" where
  "findConditionIndex [] t = None"
| "findConditionIndex (c # cs) t =
     (if c_Type c = t then Some 0 else map_option Suc (findConditionIndex cs t))"

definition setCondition :: "Condition list \<Rightarrow> Condition \<Rightarrow> Condition list" where
  "setCondition conditions condition =
     (case findConditionIndex conditions (c_Type condition) of
        Some i \<Rightarrow> conditions[i := condition]
      | None \<Rightarrow> conditions @ [condition])"

text \<open>The text of an error as \<^verbatim>\<open>%v\<close> prints it; the wording is the client library's.\<close>

fun error_text :: "api_error \<Rightarrow> string" where
  "error_text NotFound = ''not found''"
| "error_text AlreadyExists = ''already exists''"
| "error_text Conflict = ''the object has been modified''"
| "error_text Unavailable = ''the server is currently unable to handle the request''"

definition updateStatus :: "AlertRule \<Rightarrow> cluster \<Rightarrow> api_error option \<times> AlertRule \<times> cluster" where
  "updateStatus alertRule w =
     (case Get_PrometheusRule (ar_Namespace alertRule, ar_Name alertRule) w of
        (got, w1) \<Rightarrow>
          (let condition0 =
                 \<lparr>c_Type = ''PrometheusRuleReady'',
                  c_Status = ConditionTrue,
                  c_Reason = ''PrometheusRuleCreated'',
                  c_Message = ''PrometheusRule has been successfully created'',
                  c_LastTransitionTime = clock w1,
                  c_ObservedGeneration = ar_Generation alertRule\<rparr>;
               condition =
                 (case got of
                    Inr found \<Rightarrow> condition0
                  | Inl err \<Rightarrow>
                      if err = NotFound
                      then condition0\<lparr>c_Status := ConditionFalse,
                                       c_Reason := ''PrometheusRuleNotFound'',
                                       c_Message := ''PrometheusRule not found''\<rparr>
                      else condition0\<lparr>c_Status := ConditionUnknown,
                                       c_Reason := ''Error'',
                                       c_Message := ''Error checking PrometheusRule: ''
                                                      @ error_text err\<rparr>);
               alertRule' = alertRule\<lparr>ar_Status :=
                              \<lparr>st_Conditions =
                                 setCondition (st_Conditions (ar_Status alertRule)) condition\<rparr>\<rparr>
           in (case Status_Update_AlertRule alertRule' w1 of
                 (err, w2) \<Rightarrow> (err, alertRule', w2))))"

definition AlertRuleReconciler_Reconcile :: "key \<Rightarrow> cluster \<Rightarrow> api_error option \<times> cluster" where
  "AlertRuleReconciler_Reconcile req w =
     (case Get_AlertRule req w of
        (Inl err, w1) \<Rightarrow>
          if err = NotFound then deletePrometheusRule (fst req) (snd req) w1
          else (Some err, w1)
      | (Inr alertRule, w1) \<Rightarrow>
          if \<not> IsZero (ar_DeletionTimestamp alertRule) then (None, w1)
          else
            (case reconcilePrometheusRule alertRule w1 of
               (Some err, w2) \<Rightarrow> (Some err, w2)
             | (None, w2) \<Rightarrow>
                 (case updateStatus alertRule w2 of
                    (err, alertRule', w3) \<Rightarrow> (err, w3))))"

section \<open>AlertRuleReconciler producing a ConfigMap\<close>

text \<open>
  Modelled from the spec: the declaration of the list-shaped AlertRule type that the
  ConfigMap reconciler reads is not among the sources (the declared type is the
  fixed-field one above). The records below hold the fields that reconciler accesses
  (\<^verbatim>\<open>Spec.Rules\<close> with \<^verbatim>\<open>Name\<close>, \<^verbatim>\<open>Condition\<close>, \<^verbatim>\<open>Duration\<close>, \<^verbatim>\<open>Severity\<close>,
  \<^verbatim>\<open>Notifications\<close> with \<^verbatim>\<open>Discord\<close> and \<^verbatim>\<open>Email\<close>; \<^verbatim>\<open>Spec.TargetDeployment\<close>), which is
  the variant shape of the spec's data model: a rules list, each rule with its name,
  condition, duration, severity and notification channels, and one target deployment.
\<close>

record Notification =
  n_Discord :: string
  n_Email :: string

record Rule =
  rule_Name :: string
  rule_Condition :: string
  rule_Duration :: string
  rule_Severity :: string
  rule_Notifications :: "Notification list"

record RulesSpec =
  rs_Rules :: "Rule list"
  rs_TargetDeployment :: string

record RulesAlertRule =
  ra_APIVersion :: string
  ra_Kind :: string
  ra_Name :: string
  ra_Namespace :: string
  ra_UID :: string
  ra_Generation :: int
  ra_DeletionTimestamp :: "nat option"
  ra_Spec :: RulesSpec
  ra_Status :: AlertRuleStatus

record ConfigMap =
  cm_Name :: string
  cm_Namespace :: string
  cm_Labels :: "string \<rightharpoonup> string"
  cm_OwnerReferences :: "OwnerReference list"
  cm_Data :: "string \<rightharpoonup> string"

record cm_cluster =
  rulesAlertRules :: "key \<rightharpoonup> RulesAlertRule"
  configMaps :: "key \<rightharpoonup> ConfigMap"
  cm_faults :: "api_error option list"
  cm_clock :: nat

datatype reconcile_error = StoreError api_error | RenderError string

definition cm_next_fault :: "cm_cluster \<Rightarrow> api_error option \<times> cm_cluster" where
  "cm_next_fault w = (peek_fault (cm_faults w), w\<lparr>cm_faults := tl (cm_faults w)\<rparr>)"

definition Get_RulesAlertRule ::
  "key \<Rightarrow> cm_cluster \<Rightarrow> (api_error + RulesAlertRule) \<times> cm_cluster" where
  "Get_RulesAlertRule k w =
     (case cm_next_fault w of (f, w') \<Rightarrow> (store_get f (rulesAlertRules w') k, w'))"

definition Get_ConfigMap :: "key \<Rightarrow> cm_cluster \<Rightarrow> (api_error + ConfigMap) \<times> cm_cluster" where
  "Get_ConfigMap k w =
     (case cm_next_fault w of (f, w') \<Rightarrow> (store_get f (configMaps w') k, w'))"

definition Create_ConfigMap :: "ConfigMap \<Rightarrow> cm_cluster \<Rightarrow> api_error option \<times> cm_cluster" where
  "Create_ConfigMap obj w =
     (case cm_next_fault w of (f, w') \<Rightarrow>
        (case store_create f (configMaps w') (cm_Namespace obj, cm_Name obj) obj of
           (err, m) \<Rightarrow> (err, w'\<lparr>configMaps := m\<rparr>)))"

definition Update_ConfigMap :: "ConfigMap \<Rightarrow> cm_cluster \<Rightarrow> api_error option \<times> cm_cluster" where
  "Update_ConfigMap obj w =
     (case cm_next_fault w of (f, w') \<Rightarrow>
        (case store_update f (configMaps w') (cm_Namespace obj, cm_Name obj) obj of
           (err, m) \<Rightarrow> (err, w'\<lparr>configMaps := m\<rparr>)))"

definition Status_Update_RulesAlertRule ::
  "RulesAlertRule \<Rightarrow> cm_cluster \<Rightarrow> api_error option \<times> cm_cluster" where
  "Status_Update_RulesAlertRule obj w =
     (case cm_next_fault w of (f, w') \<Rightarrow>
        (case f of
           Some e \<Rightarrow> (Some e, w')
         | None \<Rightarrow>
            (case rulesAlertRules w' (ra_Namespace obj, ra_Name obj) of
               None \<Rightarrow> (Some NotFound, w')
             | Some stored \<Rightarrow>
                 (None, w'\<lparr>rulesAlertRules :=
                              (rulesAlertRules w')((ra_Namespace obj, ra_Name obj) \<mapsto>
                                 stored\<lparr>ra_Status := ra_Status obj\<rparr>)\<rparr>))))"

text \<open>\<^verbatim>\<open>strings.Join\<close>.\<close>

fun Join :: "string list \<Rightarrow> string \<Rightarrow> string" where
  "Join [] sep = []"
| "Join [x] sep = x"
| "Join (x # y # xs) sep = x @ sep @ Join (y # xs) sep"

text \<open>The inner loop of \<^verbatim>\<open>generateAlertRulesYAML\<close> over \<^verbatim>\<open>rule.Notifications\<close>.\<close>

fun notification_annotations :: "Notification list \<Rightarrow> string list \<Rightarrow> string list" where
  "notification_annotations [] annotations = annotations"
| "notification_annotations (notif # rest) annotations =
     (let a1 = (if n_Discord notif \<noteq> []
                then annotations @ [''    discord: '' @ quoted (n_Discord notif)]
                else annotations);
          a2 = (if n_Email notif \<noteq> []
                then a1 @ [''    email: '' @ quoted (n_Email notif)]
                else a1)
      in notification_annotations rest a2)"

text \<open>The body of the outer loop: the text of one rule.\<close>

definition ruleYAML :: "RulesAlertRule \<Rightarrow> Rule \<Rightarrow> string" where
  "ruleYAML alertRule rule =
     (let annotations =
            notification_annotations (rule_Notifications rule)
              [''    summary: '' @ quoted (rule_Name rule),
               ''    severity: '' @ quoted (rule_Severity rule)];
          labels =
            [''    alertname: '' @ quoted (rule_Name rule),
             ''    severity: '' @ quoted (rule_Severity rule),
             ''    deployment: '' @ quoted (rs_TargetDeployment (ra_Spec alertRule))]
      in ''- alert: '' @ rule_Name rule @ newline
         @ ''  expr: '' @ rule_Condition rule @ newline
         @ ''  for: '' @ rule_Duration rule @ newline
         @ ''  labels:'' @ newline
         @ Join labels newline @ newline
         @ ''  annotations:'' @ newline
         @ Join annotations newline @ newline)"

fun generate_rules :: "RulesAlertRule \<Rightarrow> Rule list \<Rightarrow> string list \<Rightarrow> string list" where
  "generate_rules alertRule [] rules = rules"
| "generate_rules alertRule (rule # rest) rules =
     generate_rules alertRule rest (rules @ [ruleYAML alertRule rule])"

definition generateAlertRulesYAML :: "RulesAlertRule \<Rightarrow> string \<times> reconcile_error option" where
  "generateAlertRulesYAML alertRule =
     (let rules = generate_rules alertRule (rs_Rules (ra_Spec alertRule)) []
      in (''groups:'' @ newline @ ''- name: '' @ ra_Name alertRule @ newline
            @ ''  rules:'' @ newline @ Join rules [],
          None))"

definition cm_updateStatus ::
  "RulesAlertRule \<Rightarrow> Condition \<Rightarrow> cm_cluster \<Rightarrow> api_error option \<times> RulesAlertRule \<times> cm_cluster" where
  "cm_updateStatus alertRule condition w =
     (let stamped = condition\<lparr>c_LastTransitionTime := cm_clock w,
                               c_ObservedGeneration := ra_Generation alertRule\<rparr>;
          alertRule' = alertRule\<lparr>ra_Status :=
                         \<lparr>st_Conditions =
                            setCondition (st_Conditions (ra_Status alertRule)) stamped\<rparr>\<rparr>
      in (case Status_Update_RulesAlertRule alertRule' w of
            (err, w1) \<Rightarrow> (err, alertRule', w1)))"

text \<open>A \<^verbatim>\<open>metav1.Condition\<close> literal that sets the four fields the callers give.\<close>

definition mkCondition :: "string \<Rightarrow> ConditionStatus \<Rightarrow> string \<Rightarrow> string \<Rightarrow> Condition" where
  "mkCondition t s r m =
     \<lparr>c_Type = t, c_Status = s, c_Reason = r, c_Message = m,
      c_LastTransitionTime = 0, c_ObservedGeneration = 0\<rparr>"

text \<open>The ConfigMap literal of \<^verbatim>\<open>Reconcile\<close> (the local \<^verbatim>\<open>configMap\<close>).\<close>

definition Reconcile_configMap :: "RulesAlertRule \<Rightarrow> string \<Rightarrow> ConfigMap" where
  "Reconcile_configMap alertRule alertRulesYAML =
     \<lparr>cm_Name = ''alertrule-'' @ ra_Name alertRule,
      cm_Namespace = ra_Namespace alertRule,
      cm_Labels = [''app.kubernetes.io/name'' \<mapsto> ''k8s-alert-rule-operator'',
                   ''app.kubernetes.io/managed-by'' \<mapsto> ''alertrule-controller'',
                   ''alertrule.monitoring.my.domain'' \<mapsto> ra_Name alertRule],
      cm_OwnerReferences =
        [\<lparr>or_APIVersion = ra_APIVersion alertRule, or_Kind = ra_Kind alertRule,
          or_Name = ra_Name alertRule, or_UID = ra_UID alertRule,
          or_Controller = Some True, or_BlockOwnerDeletion = None\<rparr>],
      cm_Data = [''alertrules.yaml'' \<mapsto> alertRulesYAML]\<rparr>"

text \<open>
  The create-or-update block of \<^verbatim>\<open>Reconcile\<close>: the error it returns with, if any, after
  the Degraded condition has been recorded (a failure of that status write is only
  logged).
\<close>

definition Reconcile_upsert ::
  "RulesAlertRule \<Rightarrow> ConfigMap \<Rightarrow> cm_cluster \<Rightarrow> api_error option \<times> cm_cluster" where
  "Reconcile_upsert alertRule configMap w =
     (case Get_ConfigMap (cm_Namespace configMap, cm_Name configMap) w of
        (Inl err, w1) \<Rightarrow>
          if err = NotFound then
            (case Create_ConfigMap configMap w1 of
               (Some cerr, w2) \<Rightarrow>
                 (case cm_updateStatus alertRule
                         (mkCondition ''Degraded'' ConditionTrue ''ConfigMapCreationFailed''
                            (''Failed to create ConfigMap: '' @ error_text cerr)) w2 of
                    (updateErr, alertRule', w3) \<Rightarrow> (Some cerr, w3))
             | (None, w2) \<Rightarrow> (None, w2))
          else (Some err, w1)
      | (Inr existingConfigMap, w1) \<Rightarrow>
          (case Update_ConfigMap
                  (existingConfigMap\<lparr>cm_Data := cm_Data configMap,
                                     cm_Labels := cm_Labels configMap\<rparr>) w1 of
             (Some uerr, w2) \<Rightarrow>
               (case cm_updateStatus alertRule
                       (mkCondition ''Degraded'' ConditionTrue ''ConfigMapUpdateFailed''
                          (''Failed to update ConfigMap: '' @ error_text uerr)) w2 of
                  (updateErr, alertRule', w3) \<Rightarrow> (Some uerr, w3))
           | (None, w2) \<Rightarrow> (None, w2)))"

fun render_error_text :: "reconcile_error \<Rightarrow> string" where
  "render_error_text (StoreError e) = error_text e"
| "render_error_text (RenderError m) = m"

definition cm_Reconcile :: "key \<Rightarrow> cm_cluster \<Rightarrow> reconcile_error option \<times> cm_cluster" where
  "cm_Reconcile req w =
     (case Get_RulesAlertRule req w of
        (Inl err, w1) \<Rightarrow>
          if err = NotFound then (None, w1) else (Some (StoreError err), w1)
      | (Inr alertRule, w1) \<Rightarrow>
          (case cm_updateStatus alertRule
                  (mkCondition ''Progressing'' ConditionTrue ''Reconciling''
                     ''Reconciling AlertRule'') w1 of
             (Some err, alertRule1, w2) \<Rightarrow> (Some (StoreError err), w2)
           | (None, alertRule1, w2) \<Rightarrow>
               (case generateAlertRulesYAML alertRule1 of
                  (alertRulesYAML, Some err) \<Rightarrow>
                    (case cm_updateStatus alertRule1
                            (mkCondition ''Degraded'' ConditionTrue ''GenerationFailed''
                               (''Failed to generate alert rules: '' @ render_error_text err))
                            w2 of
                       (updateErr, alertRule2, w3) \<Rightarrow> (Some err, w3))
                | (alertRulesYAML, None) \<Rightarrow>
                    (let configMapName = ''alertrule-'' @ ra_Name alertRule1;
                         configMap = Reconcile_configMap alertRule1 alertRulesYAML
                     in (case Reconcile_upsert alertRule1 configMap w2 of
                           (Some err, w3) \<Rightarrow> (Some (StoreError err), w3)
                         | (None, w3) \<Rightarrow>
                             (case cm_updateStatus alertRule1
                                     (mkCondition ''Available'' ConditionTrue ''Reconciled''
                                        (''AlertRule reconciled successfully. ConfigMap: ''
                                           @ configMapName)) w3 of
                                (Some err, alertRule2, w4) \<Rightarrow> (Some (StoreError err), w4)
                              | (None, alertRule2, w4) \<Rightarrow> (None, w4)))))))"

text \<open>
  The conditions of a list that record a failed generation (the reason
  \<^verbatim>\<open>GenerationFailed\<close>), and those recorded on any AlertRule of a cluster.
\<close>

definition generation_failures :: "Condition list \<Rightarrow> Condition list" where
  "generation_failures cs = filter (\<lambda>c. c_Reason c = ''GenerationFailed'') cs"

definition recorded_failures :: "cm_cluster \<Rightarrow> Condition set" where
  "recorded_failures v =
     (\<Union>a \<in> ran (rulesAlertRules v). set (generation_failures (st_Conditions (ra_Status a))))"

section \<open>Concrete clusters\<close>

text \<open>
  The objects of the end-to-end scenario: a Deployment \<^verbatim>\<open>checkout\<close> in the namespace
  \<^verbatim>\<open>shop\<close>, an AlertRule a user has edited (severity warning, a label
  \<^verbatim>\<open>managed-by=custom\<close>) whose reference has drifted, variants of it, an AlertRule of
  the list shape, and the clusters holding them.
\<close>

definition apps_scheme :: Scheme where
  "apps_scheme = Some (''apps'', ''v1'', ''Deployment'')"

definition checkout :: Deployment where
  "checkout =
     \<lparr>d_APIVersion = ''apps/v1'', d_Kind = ''Deployment'', d_Name = ''checkout'',
      d_Namespace = ''shop'', d_UID = ''d-1'', d_DeletionTimestamp = None\<rparr>"

definition checkout_alert :: AlertRule where
  "checkout_alert =
     \<lparr>ar_APIVersion = ''monitoring.example.com/v1'', ar_Kind = ''AlertRule'',
      ar_Name = ''checkout-alert'', ar_Namespace = ''shop'',
      ar_Labels = Some [(''managed-by'', ''custom'')],
      ar_UID = ''a-1'', ar_Generation = 3, ar_DeletionTimestamp = None,
      ar_OwnerReferences = [],
      ar_Spec =
        \<lparr>spec_Alert = ''CheckoutDown'', spec_Expr = ''up == 0'', spec_Severity = ''warning'',
         spec_For = [], spec_Labels = None, spec_Annotations = None,
         spec_DeploymentRef = Some \<lparr>ref_Namespace = ''staging'', ref_Name = ''checkout''\<rparr>\<rparr>,
      ar_Status =
        \<lparr>st_Conditions =
           [\<lparr>c_Type = ''PrometheusRuleReady'', c_Status = ConditionFalse,
             c_Reason = ''PrometheusRuleNotFound'', c_Message = ''PrometheusRule not found'',
             c_LastTransitionTime = 2, c_ObservedGeneration = 1\<rparr>]\<rparr>\<rparr>"

definition silent_alert :: AlertRule where
  "silent_alert = checkout_alert\<lparr>ar_Spec := (ar_Spec checkout_alert)\<lparr>spec_Severity := []\<rparr>\<rparr>"

definition labelled_alert :: AlertRule where
  "labelled_alert =
     checkout_alert
       \<lparr>ar_Labels := Some [(''team'', ''payments''), (''release'', ''canary'')],
        ar_Spec := (ar_Spec checkout_alert)
          \<lparr>spec_Labels := Some [(''tier'', ''web''), (''team'', ''payments'')],
           spec_Annotations := Some [(''summary'', ''checkout is down''), (''runbook'', ''wiki'')]\<rparr>\<rparr>"

definition relabelled_alert :: AlertRule where
  "relabelled_alert =
     checkout_alert
       \<lparr>ar_Labels := Some [(''release'', ''canary''), (''team'', ''payments'')],
        ar_Spec := (ar_Spec checkout_alert)
          \<lparr>spec_Labels := Some [(''team'', ''payments''), (''tier'', ''web'')],
           spec_Annotations := Some [(''runbook'', ''wiki''), (''summary'', ''checkout is down'')]\<rparr>\<rparr>"

definition shop_empty :: cluster where
  "shop_empty =
     \<lparr>deployments = [(''shop'', ''checkout'') \<mapsto> checkout],
      alertRules = Map.empty, prometheusRules = Map.empty, faults = [], clock = 7\<rparr>"

definition shop_alerting :: cluster where
  "shop_alerting = shop_empty\<lparr>alertRules := [(''shop'', ''checkout-alert'') \<mapsto> checkout_alert]\<rparr>"

definition shop_deleting :: cluster where
  "shop_deleting =
     \<lparr>deployments = [(''shop'', ''checkout'') \<mapsto> checkout\<lparr>d_DeletionTimestamp := Some 5\<rparr>],
      alertRules = [(''shop'', ''checkout-alert'') \<mapsto>
                      checkout_alert\<lparr>ar_DeletionTimestamp := Some 5\<rparr>],
      prometheusRules = Map.empty, faults = [], clock = 7\<rparr>"

definition orphan_rule :: PrometheusRule where
  "orphan_rule = createPrometheusRule checkout_alert"

definition shop_orphaned :: cluster where
  "shop_orphaned =
     \<lparr>deployments = Map.empty, alertRules = Map.empty,
      prometheusRules = [(''shop'', ''checkout-alert'') \<mapsto> orphan_rule],
      faults = [], clock = 7\<rparr>"

text \<open>
  The same cluster when the PrometheusRule is read but the delete is answered with
  not-found (another client removed it in between, or the read was stale).
\<close>

definition shop_racing :: cluster where
  "shop_racing = shop_orphaned\<lparr>faults := [None, None, Some NotFound]\<rparr>"

definition web_rules :: RulesAlertRule where
  "web_rules =
     \<lparr>ra_APIVersion = ''monitoring.my.domain/v1'', ra_Kind = ''AlertRule'',
      ra_Name = ''web'', ra_Namespace = ''shop'', ra_UID = ''r-1'', ra_Generation = 4,
      ra_DeletionTimestamp = Some 5,
      ra_Spec =
        \<lparr>rs_Rules = [\<lparr>rule_Name = ''WebDown'', rule_Condition = ''up == 0'',
                       rule_Duration = [], rule_Severity = [],
                       rule_Notifications = [\<lparr>n_Discord = [], n_Email = ''ops@example.com''\<rparr>]\<rparr>],
         rs_TargetDeployment = ''web''\<rparr>,
      ra_Status =
        \<lparr>st_Conditions =
           [\<lparr>c_Type = ''Progressing'', c_Status = ConditionTrue, c_Reason = ''Reconciling'',
             c_Message = ''Reconciling AlertRule'', c_LastTransitionTime = 2,
             c_ObservedGeneration = 3\<rparr>,
            \<lparr>c_Type = ''Available'', c_Status = ConditionFalse, c_Reason = ''Pending'',
             c_Message = [], c_LastTransitionTime = 2, c_ObservedGeneration = 3\<rparr>]\<rparr>\<rparr>"

definition web_cluster :: cm_cluster where
  "web_cluster =
     \<lparr>rulesAlertRules = [(''shop'', ''web'') \<mapsto> web_rules],
      configMaps = Map.empty, cm_faults = [], cm_clock = 9\<rparr>"

definition web_orphaned :: cm_cluster where
  "web_orphaned =
     \<lparr>rulesAlertRules = Map.empty,
      configMaps = [(''shop'', ''alertrule-web'') \<mapsto> Reconcile_configMap web_rules ''groups:''],
      cm_faults = [], cm_clock = 9\<rparr>"

section \<open>Status conditions\<close>











section \<open>Properties of DeploymentReconciler\<close>

lemma createDefaultAlertRule_key:
  "ar_Name (createDefaultAlertRule scheme d n) = n"
  "ar_Namespace (createDefaultAlertRule scheme d n) = d_Namespace d"
  by (auto simp: createDefaultAlertRule_def SetControllerReference_def Let_def
           split: option.splits prod.splits)

lemma Get_Deployment_observed:
  "peek_fault (faults w) = None \<Longrightarrow> deployments w k = Some d \<Longrightarrow>
   Get_Deployment k w = (Inr d, w\<lparr>faults := tl (faults w)\<rparr>)"
  by (simp add: Get_Deployment_def next_fault_def store_get_def)

lemma Get_AlertRule_frame:
  "Get_AlertRule k w = (r, w1) \<Longrightarrow>
   alertRules w1 = alertRules w \<and> deployments w1 = deployments w \<and>
   prometheusRules w1 = prometheusRules w \<and>
   (case r of Inr a \<Rightarrow> alertRules w k = Some a | Inl e \<Rightarrow> True)"
  by (auto simp: Get_AlertRule_def next_fault_def store_get_def split: option.splits)

lemma Create_AlertRule_existing:
  "alertRules w (ar_Namespace obj, ar_Name obj) \<noteq> None \<Longrightarrow> Create_AlertRule obj w = (e, w1) \<Longrightarrow>
   alertRules w1 = alertRules w \<and> deployments w1 = deployments w \<and>
   prometheusRules w1 = prometheusRules w"
  by (auto simp: Create_AlertRule_def next_fault_def store_create_def split: option.splits)

lemma Update_AlertRule_frame:
  "Update_AlertRule obj w = (e, w1) \<Longrightarrow>
   (alertRules w1 = alertRules w \<or>
    alertRules w1 = (alertRules w)((ar_Namespace obj, ar_Name obj) \<mapsto> obj)) \<and>
   deployments w1 = deployments w \<and> prometheusRules w1 = prometheusRules w"
  by (auto simp: Update_AlertRule_def next_fault_def store_update_def split: option.splits)

lemma Get_AlertRule_script:
  "Get_AlertRule k w = (r, w1) \<Longrightarrow>
   faults w1 = tl (faults w) \<and>
   (peek_fault (faults w) = None \<longrightarrow> r = store_get None (alertRules w) k)"
  by (auto simp: Get_AlertRule_def next_fault_def)

lemma Update_AlertRule_ok:
  "peek_fault (faults w) = None \<Longrightarrow> alertRules w (ar_Namespace obj, ar_Name obj) \<noteq> None \<Longrightarrow>
   Update_AlertRule obj w = (e, w1) \<Longrightarrow>
   e = None \<and> alertRules w1 = (alertRules w)((ar_Namespace obj, ar_Name obj) \<mapsto> obj)"
  by (auto simp: Update_AlertRule_def next_fault_def store_update_def split: option.splits)

text \<open>
  Claim C1. When \<^verbatim>\<open>DeploymentReconciler.Reconcile\<close> observes a Deployment that is not
  being deleted and the AlertRule \<^verbatim>\<open><name>-alert\<close> exists, then, whatever store errors
  follow, the AlertRule stored afterwards is the one stored before except possibly for
  \<^verbatim>\<open>deploymentRef\<close>: severity, expression, for, labels and annotations are the same.
  The reference is the old one or the Deployment's namespace and name; nothing is written
  when it was current already, no other object changes, and without store errors the
  reference is current afterwards.
\<close>

theorem deployment_reconcile_keeps_user_fields:
  assumes obs: "peek_fault (faults w) = None"
      and dep: "deployments w req = Some d"
      and dkey: "d_Namespace d = fst req" "d_Name d = snd req"
      and live: "IsZero (d_DeletionTimestamp d)"
      and ex: "alertRules w (fst req, d_Name d @ ''-alert'') = Some ar"
      and akey: "ar_Namespace ar = fst req" "ar_Name ar = d_Name d @ ''-alert''"
      and run: "DeploymentReconciler_Reconcile scheme req w = (err, w')"
  shows "\<exists>ar'. alertRules w' (fst req, d_Name d @ ''-alert'') = Some ar' \<and>
           ar' = ar\<lparr>ar_Spec := (ar_Spec ar)\<lparr>spec_DeploymentRef :=
                        spec_DeploymentRef (ar_Spec ar')\<rparr>\<rparr> \<and>
           spec_Severity (ar_Spec ar') = spec_Severity (ar_Spec ar) \<and>
           spec_Expr (ar_Spec ar') = spec_Expr (ar_Spec ar) \<and>
           spec_For (ar_Spec ar') = spec_For (ar_Spec ar) \<and>
           spec_Labels (ar_Spec ar') = spec_Labels (ar_Spec ar) \<and>
           spec_Annotations (ar_Spec ar') = spec_Annotations (ar_Spec ar) \<and>
           (spec_DeploymentRef (ar_Spec ar') = spec_DeploymentRef (ar_Spec ar) \<or>
            spec_DeploymentRef (ar_Spec ar') =
              Some \<lparr>ref_Namespace = d_Namespace d, ref_Name = d_Name d\<rparr>) \<and>
           (spec_DeploymentRef (ar_Spec ar) =
              Some \<lparr>ref_Namespace = d_Namespace d, ref_Name = d_Name d\<rparr>
            \<longrightarrow> alertRules w' = alertRules w) \<and>
           (\<forall>k. k \<noteq> (fst req, d_Name d @ ''-alert'') \<longrightarrow> alertRules w' k = alertRules w k) \<and>
           deployments w' = deployments w \<and> prometheusRules w' = prometheusRules w \<and>
           (faults w = [] \<longrightarrow> err = None \<and>
              spec_DeploymentRef (ar_Spec ar') =
                Some \<lparr>ref_Namespace = d_Namespace d, ref_Name = d_Name d\<rparr>)"
proof -
  let ?k = "(fst req, d_Name d @ ''-alert'')"
  let ?w0 = "w\<lparr>faults := tl (faults w)\<rparr>"
  have g: "Get_Deployment req w = (Inr d, ?w0)"
    using obs dep by (rule Get_Deployment_observed)
  obtain r w1 where ga: "Get_AlertRule ?k ?w0 = (r, w1)"
    by (cases "Get_AlertRule ?k ?w0")
  have f1: "alertRules w1 = alertRules w" "deployments w1 = deployments w"
       "prometheusRules w1 = prometheusRules w"
    using Get_AlertRule_frame [OF ga] by simp_all
  have f2: "faults w1 = tl (tl (faults w))"
    and f3: "peek_fault (tl (faults w)) = None \<Longrightarrow> r = Inr ar"
    using Get_AlertRule_script [OF ga] ex by (simp_all add: store_get_def)
  have quiet: "faults w = [] \<Longrightarrow> r = Inr ar \<and> peek_fault (faults w1) = None"
    using f2 f3 by (simp add: peek_fault_def)
  show ?thesis
  proof (cases r)
    case (Inl e)
    then have busy: "faults w \<noteq> []" using quiet by auto
    show ?thesis
    proof (cases "e = NotFound")
      case True
      have "Create_AlertRule (createDefaultAlertRule scheme d (d_Name d @ ''-alert'')) w1 = (err, w')"
        using run g ga Inl True live by (simp add: DeploymentReconciler_Reconcile_def Let_def)
      moreover have "alertRules w1 (ar_Namespace (createDefaultAlertRule scheme d (d_Name d @ ''-alert'')),
                        ar_Name (createDefaultAlertRule scheme d (d_Name d @ ''-alert''))) \<noteq> None"
        using ex f1 dkey by (simp add: createDefaultAlertRule_key)
      ultimately have "alertRules w' = alertRules w1 \<and> deployments w' = deployments w1 \<and>
          prometheusRules w' = prometheusRules w1"
        using Create_AlertRule_existing by blast
      then show ?thesis using f1 ex busy by simp
    next
      case False
      have "w' = w1"
        using run g ga Inl False live by (simp add: DeploymentReconciler_Reconcile_def Let_def)
      then show ?thesis using f1 ex busy by simp
    qed
  next
    case (Inr a)
    have a: "a = ar" using Get_AlertRule_frame [OF ga] Inr ex by simp
    let ?new = "ar\<lparr>ar_Spec := (ar_Spec ar)\<lparr>spec_DeploymentRef :=
                  Some \<lparr>ref_Namespace = d_Namespace d, ref_Name = d_Name d\<rparr>\<rparr>\<rparr>"
    show ?thesis
    proof (cases "spec_DeploymentRef (ar_Spec ar) = Some \<lparr>ref_Namespace = d_Namespace d, ref_Name = d_Name d\<rparr>")
      case True
      have "w' = w1 \<and> err = None"
        using run g ga Inr a True live
        by (auto simp: DeploymentReconciler_Reconcile_def Let_def)
      then show ?thesis using f1 ex True by simp
    next
      case False
      have cond: "spec_DeploymentRef (ar_Spec ar) = None \<or>
                  ref_Namespace (the (spec_DeploymentRef (ar_Spec ar))) \<noteq> d_Namespace d \<or>
                  ref_Name (the (spec_DeploymentRef (ar_Spec ar))) \<noteq> d_Name d"
        using False by (cases "spec_DeploymentRef (ar_Spec ar)") auto
      have up: "Update_AlertRule ?new w1 = (err, w')"
        using run g ga Inr a cond live by (simp add: DeploymentReconciler_Reconcile_def Let_def)
      have ok: "faults w = [] \<Longrightarrow> err = None \<and> alertRules w' = (alertRules w1)(?k \<mapsto> ?new)"
        using Update_AlertRule_ok [OF _ _ up] quiet akey ex f1 by simp
      from Update_AlertRule_frame [OF up]
      have u: "alertRules w' = alertRules w1 \<or> alertRules w' = (alertRules w1)(?k \<mapsto> ?new)"
        and rest: "deployments w' = deployments w1" "prometheusRules w' = prometheusRules w1"
        using akey by simp_all
      from u show ?thesis
      proof
        assume same: "alertRules w' = alertRules w1"
        have "faults w \<noteq> []"
        proof
          assume "faults w = []"
          then have "alertRules w' ?k = Some ?new" using ok by simp
          then have "ar = ?new" using same f1 ex by simp
          then have "spec_DeploymentRef (ar_Spec ar) = spec_DeploymentRef (ar_Spec ?new)" by simp
          then show False using False by simp
        qed
        then show ?thesis using same f1 rest ex by simp
      next
        assume "alertRules w' = (alertRules w1)(?k \<mapsto> ?new)"
        then show ?thesis using f1 rest False ok by simp
      qed
    qed
  qed
qed


theorem deployment_reconcile_keeps_user_fields_witness:
  "\<exists>ar'. alertRules (snd (DeploymentReconciler_Reconcile apps_scheme (''shop'', ''checkout'')
              shop_alerting)) (''shop'', ''checkout-alert'') = Some ar' \<and>
         spec_Severity (ar_Spec ar') = ''warning'' \<and>
         spec_Expr (ar_Spec ar') = ''up == 0'' \<and>
         spec_For (ar_Spec ar') = [] \<and>
         spec_Labels (ar_Spec ar') = None \<and>
         spec_Annotations (ar_Spec ar') = None \<and>
         spec_DeploymentRef (ar_Spec ar') =
           Some \<lparr>ref_Namespace = ''shop'', ref_Name = ''checkout''\<rparr>"
proof -
  have h: "peek_fault (faults shop_alerting) = None"
      "deployments shop_alerting (''shop'', ''checkout'') = Some checkout"
      "d_Namespace checkout = fst (''shop'', ''checkout'')"
      "d_Name checkout = snd (''shop'', ''checkout'')"
      "IsZero (d_DeletionTimestamp checkout)"
      "alertRules shop_alerting (fst (''shop'', ''checkout''), d_Name checkout @ ''-alert'')
         = Some checkout_alert"
      "ar_Namespace checkout_alert = fst (''shop'', ''checkout'')"
      "ar_Name checkout_alert = d_Name checkout @ ''-alert''"
    by (simp_all add: shop_alerting_def shop_empty_def checkout_def checkout_alert_def
          peek_fault_def IsZero_def)
  have run: "DeploymentReconciler_Reconcile apps_scheme (''shop'', ''checkout'') shop_alerting =
      (fst (DeploymentReconciler_Reconcile apps_scheme (''shop'', ''checkout'') shop_alerting),
       snd (DeploymentReconciler_Reconcile apps_scheme (''shop'', ''checkout'') shop_alerting))"
    by simp
  have quiet: "faults shop_alerting = []"
    by (simp add: shop_alerting_def shop_empty_def)
  have fields: "spec_Severity (ar_Spec checkout_alert) = ''warning''"
      "spec_Expr (ar_Spec checkout_alert) = ''up == 0''"
      "spec_For (ar_Spec checkout_alert) = []"
      "spec_Labels (ar_Spec checkout_alert) = None"
      "spec_Annotations (ar_Spec checkout_alert) = None"
      "d_Namespace checkout = ''shop''" "d_Name checkout = ''checkout''"
    by (simp_all add: checkout_alert_def checkout_def)
  from deployment_reconcile_keeps_user_fields [OF h run] quiet fields
  show ?thesis by auto
qed

lemma createDefaultAlertRule_spec:
  "ar_Spec (createDefaultAlertRule scheme d n) =
     \<lparr>spec_Alert = d_Name d @ ''PodDown'',
      spec_Expr = ''up{job='' @ quoted (d_Name d) @ ''} == 0'',
      spec_Severity = ''critical'',
      spec_For = ''1m'',
      spec_Labels = Some [(''deployment'', d_Name d), (''namespace'', d_Namespace d)],
      spec_Annotations =
        Some [(''summary'', ''Pod '' @ d_Name d @ '' is down''),
              (''description'', ''Pod '' @ d_Name d @ '' in namespace '' @ d_Namespace d
                 @ '' has been down for more than 1 minutes'')],
      spec_DeploymentRef = Some \<lparr>ref_Namespace = d_Namespace d, ref_Name = d_Name d\<rparr>\<rparr>"
  by (auto simp: createDefaultAlertRule_def SetControllerReference_def Let_def
           split: option.splits prod.splits)

lemma createDefaultAlertRule_owner:
  "\<exists>r \<in> set (ar_OwnerReferences (createDefaultAlertRule scheme d n)).
      or_Controller r = Some True \<and> or_Name r = d_Name d \<and> or_UID r = d_UID d"
  by (auto simp: createDefaultAlertRule_def SetControllerReference_def Let_def
           split: option.splits prod.splits)

lemma Create_AlertRule_fresh:
  "faults w = [] \<Longrightarrow> alertRules w (ar_Namespace obj, ar_Name obj) = None \<Longrightarrow>
   Create_AlertRule obj w =
     (None, w\<lparr>faults := [], alertRules := (alertRules w)((ar_Namespace obj, ar_Name obj) \<mapsto> obj)\<rparr>)"
  by (simp add: Create_AlertRule_def next_fault_def store_create_def peek_fault_def)

text \<open>
  Claim C6. For a Deployment W in namespace N that is not being deleted and has no
  AlertRule \<^verbatim>\<open>W-alert\<close>, a reconcile without store errors succeeds and stores the
  default AlertRule under that name: alert \<^verbatim>\<open>WPodDown\<close>, expression
  \<^verbatim>\<open>up{job="W"} == 0\<close>, for \<^verbatim>\<open>1m\<close>, severity \<^verbatim>\<open>critical\<close>, the labels deployment and
  namespace, the annotations summary and description written with W and N, and a
  controller owner reference to the Deployment.
\<close>

theorem deployment_reconcile_creates_default:
  assumes nf: "faults w = []"
      and dep: "deployments w (N, W) = Some d"
      and dkey: "d_Namespace d = N" "d_Name d = W"
      and live: "IsZero (d_DeletionTimestamp d)"
      and fresh: "alertRules w (N, W @ ''-alert'') = None"
  shows "\<exists>w' ar. DeploymentReconciler_Reconcile scheme (N, W) w = (None, w') \<and>
           alertRules w' (N, W @ ''-alert'') = Some ar \<and>
           ar_Name ar = W @ ''-alert'' \<and> ar_Namespace ar = N \<and>
           spec_Alert (ar_Spec ar) = W @ ''PodDown'' \<and>
           spec_Expr (ar_Spec ar) = ''up{job='' @ quoted W @ ''} == 0'' \<and>
           spec_For (ar_Spec ar) = ''1m'' \<and>
           spec_Severity (ar_Spec ar) = ''critical'' \<and>
           spec_Labels (ar_Spec ar) = Some [(''deployment'', W), (''namespace'', N)] \<and>
           spec_Annotations (ar_Spec ar) =
             Some [(''summary'', ''Pod '' @ W @ '' is down''),
                   (''description'', ''Pod '' @ W @ '' in namespace '' @ N
                      @ '' has been down for more than 1 minutes'')] \<and>
           (\<exists>r \<in> set (ar_OwnerReferences ar).
              or_Controller r = Some True \<and> or_Name r = W \<and> or_UID r = d_UID d)"
proof -
  let ?ar = "createDefaultAlertRule scheme d (W @ ''-alert'')"
  have w0: "w\<lparr>faults := tl (faults w)\<rparr> = w" using nf by simp
  have pk: "peek_fault (faults w) = None" using nf by (simp add: peek_fault_def)
  have g: "Get_Deployment (N, W) w = (Inr d, w)"
    using Get_Deployment_observed [OF pk dep] w0 by simp
  have ga: "Get_AlertRule (N, W @ ''-alert'') w = (Inl NotFound, w)"
    using fresh pk w0 by (simp add: Get_AlertRule_def next_fault_def store_get_def)
  have key: "(ar_Namespace ?ar, ar_Name ?ar) = (N, W @ ''-alert'')"
    using dkey by (simp add: createDefaultAlertRule_key)
  have cr: "Create_AlertRule ?ar w =
      (None, w\<lparr>faults := [], alertRules := (alertRules w)((N, W @ ''-alert'') \<mapsto> ?ar)\<rparr>)"
    using Create_AlertRule_fresh [of w ?ar] nf fresh key by simp
  have run: "DeploymentReconciler_Reconcile scheme (N, W) w =
      (None, w\<lparr>faults := [], alertRules := (alertRules w)((N, W @ ''-alert'') \<mapsto> ?ar)\<rparr>)"
    using g ga cr live dkey by (simp add: DeploymentReconciler_Reconcile_def Let_def)
  have own: "\<exists>r \<in> set (ar_OwnerReferences ?ar).
      or_Controller r = Some True \<and> or_Name r = W \<and> or_UID r = d_UID d"
    using createDefaultAlertRule_owner [of scheme d "W @ ''-alert''"] dkey by simp
  show ?thesis
    apply (rule exI [of _ "w\<lparr>faults := [], alertRules := (alertRules w)((N, W @ ''-alert'') \<mapsto> ?ar)\<rparr>"])
    apply (rule exI [of _ ?ar])
    using run own key dkey by (simp add: createDefaultAlertRule_spec)
qed

theorem deployment_reconcile_creates_default_witness:
  "\<exists>w' ar. DeploymentReconciler_Reconcile apps_scheme (''shop'', ''checkout'') shop_empty
              = (None, w') \<and>
       alertRules w' (''shop'', ''checkout-alert'') = Some ar \<and>
       spec_Alert (ar_Spec ar) = ''checkoutPodDown'' \<and>
       spec_Expr (ar_Spec ar) = ''up{job='' @ quoted ''checkout'' @ ''} == 0'' \<and>
       spec_For (ar_Spec ar) = ''1m'' \<and>
       spec_Severity (ar_Spec ar) = ''critical'' \<and>
       spec_Labels (ar_Spec ar) = Some [(''deployment'', ''checkout''), (''namespace'', ''shop'')] \<and>
       (\<exists>r \<in> set (ar_OwnerReferences ar).
          or_Controller r = Some True \<and> or_Name r = ''checkout'' \<and> or_UID r = ''d-1'')"
proof -
  have h: "faults shop_empty = []"
      "deployments shop_empty (''shop'', ''checkout'') = Some checkout"
      "d_Namespace checkout = ''shop''" "d_Name checkout = ''checkout''"
      "IsZero (d_DeletionTimestamp checkout)"
      "alertRules shop_empty (''shop'', ''checkout'' @ ''-alert'') = None"
    by (simp_all add: shop_empty_def checkout_def IsZero_def)
  have uid: "d_UID checkout = ''d-1''" by (simp add: checkout_def)
  from deployment_reconcile_creates_default [OF h, of apps_scheme] uid
  show ?thesis by auto
qed

text \<open>
  Claim C7, amended. The AlertRuleReconciler that produces a PrometheusRule and the
  DeploymentReconciler return success and write nothing when the resource they observe
  has a non-zero deletion timestamp. The AlertRuleReconciler that produces a ConfigMap
  does not look at the deletion timestamp: it reconciles such an AlertRule like any other,
  as the closed instance after the theorem shows.
\<close>

theorem deleting_resource_is_noop:
  "(peek_fault (faults w) = None \<and> alertRules w req = Some ar \<and>
    \<not> IsZero (ar_DeletionTimestamp ar) \<longrightarrow>
      (\<exists>w'. AlertRuleReconciler_Reconcile req w = (None, w') \<and>
            deployments w' = deployments w \<and> alertRules w' = alertRules w \<and>
            prometheusRules w' = prometheusRules w))
   \<and> (peek_fault (faults v) = None \<and> deployments v dreq = Some d \<and>
        \<not> IsZero (d_DeletionTimestamp d) \<longrightarrow>
      (\<exists>v'. DeploymentReconciler_Reconcile scheme dreq v = (None, v') \<and>
            deployments v' = deployments v \<and> alertRules v' = alertRules v \<and>
            prometheusRules v' = prometheusRules v))"
  by (simp add: AlertRuleReconciler_Reconcile_def DeploymentReconciler_Reconcile_def
        Get_AlertRule_def Get_Deployment_def next_fault_def store_get_def)

theorem deleting_resource_is_noop_witness:
  "(\<exists>w'. AlertRuleReconciler_Reconcile (''shop'', ''checkout-alert'') shop_deleting = (None, w') \<and>
         deployments w' = deployments shop_deleting \<and>
         alertRules w' = alertRules shop_deleting \<and>
         prometheusRules w' = prometheusRules shop_deleting)
   \<and> (\<exists>v'. DeploymentReconciler_Reconcile apps_scheme (''shop'', ''checkout'') shop_deleting
               = (None, v') \<and>
         deployments v' = deployments shop_deleting \<and>
         alertRules v' = alertRules shop_deleting \<and>
         prometheusRules v' = prometheusRules shop_deleting)"
proof -
  have h: "peek_fault (faults shop_deleting) = None"
      "alertRules shop_deleting (''shop'', ''checkout-alert'')
         = Some (checkout_alert\<lparr>ar_DeletionTimestamp := Some 5\<rparr>)"
      "\<not> IsZero (ar_DeletionTimestamp (checkout_alert\<lparr>ar_DeletionTimestamp := Some 5\<rparr>))"
      "deployments shop_deleting (''shop'', ''checkout'')
         = Some (checkout\<lparr>d_DeletionTimestamp := Some 5\<rparr>)"
      "\<not> IsZero (d_DeletionTimestamp (checkout\<lparr>d_DeletionTimestamp := Some 5\<rparr>))"
    by (simp_all add: shop_deleting_def peek_fault_def IsZero_def)
  from deleting_resource_is_noop [of shop_deleting "(''shop'', ''checkout-alert'')"
      "checkout_alert\<lparr>ar_DeletionTimestamp := Some 5\<rparr>" shop_deleting "(''shop'', ''checkout'')"
      "checkout\<lparr>d_DeletionTimestamp := Some 5\<rparr>" apps_scheme] h
  show ?thesis by blast
qed

theorem configmap_reconcile_ignores_deletion:
  "rulesAlertRules web_cluster (''shop'', ''web'') = Some web_rules \<and>
   \<not> IsZero (ra_DeletionTimestamp web_rules) \<and>
   fst (cm_Reconcile (''shop'', ''web'') web_cluster) = None \<and>
   configMaps web_cluster (''shop'', ''alertrule-web'') = None \<and>
   configMaps (snd (cm_Reconcile (''shop'', ''web'') web_cluster)) (''shop'', ''alertrule-web'')
     \<noteq> None"
  by (simp add: web_cluster_def web_rules_def IsZero_def cm_Reconcile_def Get_RulesAlertRule_def
       cm_next_fault_def peek_fault_def store_get_def cm_updateStatus_def mkCondition_def
       setCondition_def Status_Update_RulesAlertRule_def generateAlertRulesYAML_def
       Reconcile_upsert_def Reconcile_configMap_def Get_ConfigMap_def Create_ConfigMap_def
       store_create_def Let_def)

section \<open>Rendering\<close>

lemma range_assign_map_add:
  "range_assign conv es m = m ++ map_of (rev (map (\<lambda>(k, v). (k, conv v)) es))"
  by (induction es arbitrary: m) (auto simp: map_add_def fun_eq_iff split: option.splits)

lemma map_of_rev_distinct:
  "distinct (map fst xs) \<Longrightarrow> map_of (rev xs) = map_of xs"
  by (rule ext) (simp add: map_of_inject_set [of "rev xs" xs, THEN iffD2] rev_map [symmetric])

lemma range_assign_lookup:
  "distinct (map fst es) \<Longrightarrow>
   range_assign conv es m k = (case map_of es k of Some v \<Rightarrow> Some (conv v) | None \<Rightarrow> m k)"
proof -
  assume d: "distinct (map fst es)"
  have d': "distinct (map fst (map (\<lambda>(k, v). (k, conv v)) es))"
    using d by (simp add: comp_def case_prod_unfold)
  have "map_of (map (\<lambda>(k, v). (k, conv v)) es) k = map_option conv (map_of es k)"
    by (induction es) auto
  then show ?thesis
    using map_of_rev_distinct [OF d']
    by (simp add: range_assign_map_add map_add_def split: option.splits)
qed

lemma range_assign_same:
  assumes "distinct (map fst es1)" "distinct (map fst es2)" "map_of es1 = map_of es2"
  shows "range_assign conv es1 m = range_assign conv es2 m"
  by (rule ext) (simp add: range_assign_lookup assms)


lemma createPrometheusRule_labels:
  "gomap_ok (ar_Labels alertRule) \<Longrightarrow>
   pr_Labels (createPrometheusRule alertRule) k =
     (case gomap_lookup (ar_Labels alertRule) k of
        Some v \<Rightarrow> Some v
      | None \<Rightarrow> [''managed-by'' \<mapsto> ''alert-rule-operator'', ''release'' \<mapsto> ''monitoring''] k)"
  by (cases "ar_Labels alertRule")
     (simp_all add: createPrometheusRule_def gomap_ok_def gomap_lookup_def entries_def
        range_assign_lookup Let_def split: option.splits)

text \<open>
  Claim C2, amended. The labels of the rendered PrometheusRule are the built-in set
  \<^verbatim>\<open>managed-by=alert-rule-operator\<close>, \<^verbatim>\<open>release=monitoring\<close> overlaid with the labels of
  the AlertRule: on every colliding key the user's value wins, \<^verbatim>\<open>managed-by\<close> included,
  which is \<^verbatim>\<open>alert-rule-operator\<close> exactly when the user gives no such label.
\<close>

theorem prometheusrule_labels_overlay:
  assumes "gomap_ok (ar_Labels alertRule)"
  shows "(\<forall>k. pr_Labels (createPrometheusRule alertRule) k =
            (case gomap_lookup (ar_Labels alertRule) k of
               Some v \<Rightarrow> Some v
             | None \<Rightarrow> [''managed-by'' \<mapsto> ''alert-rule-operator'',
                         ''release'' \<mapsto> ''monitoring''] k))
       \<and> pr_Labels (createPrometheusRule alertRule) ''managed-by'' =
            (case gomap_lookup (ar_Labels alertRule) ''managed-by'' of
               Some v \<Rightarrow> Some v
             | None \<Rightarrow> Some ''alert-rule-operator'')"
  using createPrometheusRule_labels [OF assms] by (simp split: option.splits)

theorem prometheusrule_labels_overlay_witness:
  "gomap_ok (ar_Labels labelled_alert) \<and>
   pr_Labels (createPrometheusRule labelled_alert) ''release'' = Some ''canary'' \<and>
   pr_Labels (createPrometheusRule labelled_alert) ''team'' = Some ''payments'' \<and>
   pr_Labels (createPrometheusRule labelled_alert) ''managed-by'' = Some ''alert-rule-operator''"
proof -
  have h: "gomap_ok (ar_Labels labelled_alert)"
    by (simp add: labelled_alert_def gomap_ok_def entries_def)
  have l: "gomap_lookup (ar_Labels labelled_alert) ''release'' = Some ''canary''"
      "gomap_lookup (ar_Labels labelled_alert) ''team'' = Some ''payments''"
      "gomap_lookup (ar_Labels labelled_alert) ''managed-by'' = None"
    by (simp_all add: labelled_alert_def gomap_lookup_def entries_def)
  show ?thesis
    using h l prometheusrule_labels_overlay [OF h] by simp
qed

theorem managed_by_label_overridden:
  "gomap_lookup (ar_Labels checkout_alert) ''managed-by'' = Some ''custom'' \<and>
   pr_Labels (createPrometheusRule checkout_alert) ''managed-by'' = Some ''custom'' \<and>
   pr_Labels (createPrometheusRule checkout_alert) ''managed-by'' \<noteq> Some ''alert-rule-operator''"
  by (simp add: checkout_alert_def createPrometheusRule_def gomap_lookup_def entries_def Let_def)


lemma range_assign_same_gomap:
  assumes "same_gomap m1 m2"
  shows "(case m1 of None \<Rightarrow> base | Some es \<Rightarrow> range_assign conv es base) =
         (case m2 of None \<Rightarrow> base | Some es \<Rightarrow> range_assign conv es base)"
proof (cases m1)
  case None
  then show ?thesis using assms by (simp add: same_gomap_def)
next
  case (Some es1)
  then obtain es2 where m2: "m2 = Some es2"
    using assms by (cases m2) (auto simp: same_gomap_def)
  have "distinct (map fst es1)" "distinct (map fst es2)" "map_of es1 = map_of es2"
    using assms Some m2 by (simp_all add: same_gomap_def gomap_ok_def gomap_lookup_def entries_def)
  then have "range_assign conv es1 base = range_assign conv es2 base"
    by (rule range_assign_same)
  then show ?thesis using Some m2 by simp
qed

lemma same_gomap_None: "same_gomap m1 m2 \<Longrightarrow> (m1 = None) = (m2 = None)"
  by (simp add: same_gomap_def)

lemma buildPrometheusRule_same:
  assumes "same_gomap (spec_Labels (ar_Spec a)) sl"
      and "same_gomap (spec_Annotations (ar_Spec a)) sa"
  shows "buildPrometheusRule (a\<lparr>ar_Labels := l,
            ar_Spec := (ar_Spec a)\<lparr>spec_Labels := sl, spec_Annotations := sa\<rparr>\<rparr>)
         = buildPrometheusRule a"
proof -
  have lab: "(case sl of None \<Rightarrow> [''severity'' \<mapsto> JString (spec_Severity (ar_Spec a))]
              | Some es \<Rightarrow> range_assign JString es [''severity'' \<mapsto> JString (spec_Severity (ar_Spec a))])
           = (case spec_Labels (ar_Spec a) of
                None \<Rightarrow> [''severity'' \<mapsto> JString (spec_Severity (ar_Spec a))]
              | Some es \<Rightarrow> range_assign JString es [''severity'' \<mapsto> JString (spec_Severity (ar_Spec a))])"
    by (rule range_assign_same_gomap [OF assms(1), symmetric])
  have ann: "(case sa of None \<Rightarrow> Map.empty | Some es \<Rightarrow> range_assign JString es Map.empty)
           = (case spec_Annotations (ar_Spec a) of
                None \<Rightarrow> Map.empty | Some es \<Rightarrow> range_assign JString es Map.empty)"
    by (rule range_assign_same_gomap [OF assms(2), symmetric])
  have nil: "(sa = None) = (spec_Annotations (ar_Spec a) = None)"
    using same_gomap_None [OF assms(2)] by auto
  show ?thesis
  proof (cases sa)
    case None
    then have "spec_Annotations (ar_Spec a) = None" using nil by simp
    then show ?thesis using None lab by (simp add: buildPrometheusRule_def Let_def)
  next
    case (Some es2)
    then obtain es1 where e1: "spec_Annotations (ar_Spec a) = Some es1"
      using nil by (cases "spec_Annotations (ar_Spec a)") auto
    have "range_assign JString es2 Map.empty = range_assign JString es1 Map.empty"
      using ann Some e1 by simp
    then show ?thesis using Some e1 lab by (simp add: buildPrometheusRule_def Let_def)
  qed
qed

lemma generateAlertRulesYAML_spec_only:
  assumes "ra_Name r2 = ra_Name r1" "ra_Spec r2 = ra_Spec r1"
  shows "generateAlertRulesYAML r2 = generateAlertRulesYAML r1"
proof -
  have "ruleYAML r2 = ruleYAML r1"
    using assms by (simp add: fun_eq_iff ruleYAML_def)
  then have "generate_rules r2 rs acc = generate_rules r1 rs acc" for rs acc
    by (induction rs arbitrary: acc) simp_all
  then show ?thesis using assms by (simp add: generateAlertRulesYAML_def)
qed

text \<open>
  Claim C5. Rendering is deterministic. \<^verbatim>\<open>createPrometheusRule\<close> (with
  \<^verbatim>\<open>buildPrometheusRule\<close>) gives the same object for the same AlertRule whatever the
  order in which \<^verbatim>\<open>range\<close> visits the entries of its three maps, and
  \<^verbatim>\<open>generateAlertRulesYAML\<close> gives the same text and error for two readings of an
  AlertRule with the same name and spec.
\<close>

theorem render_deterministic:
  assumes "same_gomap (ar_Labels a) l"
      and "same_gomap (spec_Labels (ar_Spec a)) sl"
      and "same_gomap (spec_Annotations (ar_Spec a)) sa"
      and "ra_Name r2 = ra_Name r1" and "ra_Spec r2 = ra_Spec r1"
  shows "createPrometheusRule (a\<lparr>ar_Labels := l,
            ar_Spec := (ar_Spec a)\<lparr>spec_Labels := sl, spec_Annotations := sa\<rparr>\<rparr>)
           = createPrometheusRule a
       \<and> buildPrometheusRule (a\<lparr>ar_Labels := l,
            ar_Spec := (ar_Spec a)\<lparr>spec_Labels := sl, spec_Annotations := sa\<rparr>\<rparr>)
           = buildPrometheusRule a
       \<and> generateAlertRulesYAML r2 = generateAlertRulesYAML r1"
proof -
  let ?a' = "a\<lparr>ar_Labels := l,
            ar_Spec := (ar_Spec a)\<lparr>spec_Labels := sl, spec_Annotations := sa\<rparr>\<rparr>"
  have b: "buildPrometheusRule ?a' = buildPrometheusRule a"
    using assms(2,3) by (rule buildPrometheusRule_same)
  have lab: "(case l of None \<Rightarrow> [''managed-by'' \<mapsto> ''alert-rule-operator'', ''release'' \<mapsto> ''monitoring'']
              | Some es \<Rightarrow> range_assign (\<lambda>v. v) es
                   [''managed-by'' \<mapsto> ''alert-rule-operator'', ''release'' \<mapsto> ''monitoring''])
           = (case ar_Labels a of
                None \<Rightarrow> [''managed-by'' \<mapsto> ''alert-rule-operator'', ''release'' \<mapsto> ''monitoring'']
              | Some es \<Rightarrow> range_assign (\<lambda>v. v) es
                   [''managed-by'' \<mapsto> ''alert-rule-operator'', ''release'' \<mapsto> ''monitoring''])"
    by (rule range_assign_same_gomap [OF assms(1), symmetric])
  have c: "createPrometheusRule ?a' = createPrometheusRule a"
    unfolding createPrometheusRule_def Let_def b using lab by simp
  show ?thesis
    using b c generateAlertRulesYAML_spec_only [OF assms(4,5)] by simp
qed



theorem render_deterministic_witness:
  "same_gomap (ar_Labels labelled_alert) (ar_Labels relabelled_alert) \<and>
   ar_Labels labelled_alert \<noteq> ar_Labels relabelled_alert \<and>
   createPrometheusRule relabelled_alert = createPrometheusRule labelled_alert \<and>
   buildPrometheusRule relabelled_alert = buildPrometheusRule labelled_alert \<and>
   generateAlertRulesYAML (web_rules\<lparr>ra_Generation := 5, ra_Status := \<lparr>st_Conditions = []\<rparr>\<rparr>)
     = generateAlertRulesYAML web_rules"
proof -
  have m: "map_of [(''team'', ''payments''), (''release'', ''canary'')]
             = map_of [(''release'', ''canary''), (''team'', ''payments'')]"
      "map_of [(''tier'', ''web''), (''team'', ''payments'')]
             = map_of [(''team'', ''payments''), (''tier'', ''web'')]"
      "map_of [(''summary'', ''checkout is down''), (''runbook'', ''wiki'')]
             = map_of [(''runbook'', ''wiki''), (''summary'', ''checkout is down'')]"
    by (simp_all add: fun_eq_iff)
  have h: "same_gomap (ar_Labels labelled_alert) (ar_Labels relabelled_alert)"
      "same_gomap (spec_Labels (ar_Spec labelled_alert)) (spec_Labels (ar_Spec relabelled_alert))"
      "same_gomap (spec_Annotations (ar_Spec labelled_alert))
         (spec_Annotations (ar_Spec relabelled_alert))"
    using m by (simp_all add: labelled_alert_def relabelled_alert_def same_gomap_def gomap_ok_def
          gomap_lookup_def entries_def)
  have r: "ra_Name (web_rules\<lparr>ra_Generation := 5, ra_Status := \<lparr>st_Conditions = []\<rparr>\<rparr>)
             = ra_Name web_rules"
      "ra_Spec (web_rules\<lparr>ra_Generation := 5, ra_Status := \<lparr>st_Conditions = []\<rparr>\<rparr>)
             = ra_Spec web_rules"
    by simp_all
  have e: "labelled_alert\<lparr>ar_Labels := ar_Labels relabelled_alert,
             ar_Spec := (ar_Spec labelled_alert)
               \<lparr>spec_Labels := spec_Labels (ar_Spec relabelled_alert),
                spec_Annotations := spec_Annotations (ar_Spec relabelled_alert)\<rparr>\<rparr>
           = relabelled_alert"
    by (simp add: labelled_alert_def relabelled_alert_def)
  have d: "ar_Labels labelled_alert \<noteq> ar_Labels relabelled_alert"
    by (simp add: labelled_alert_def relabelled_alert_def)
  show ?thesis
    using render_deterministic [OF h r] h(1) d unfolding e by simp
qed

section \<open>Optional fields\<close>

lemma range_assign_other:
  "k \<notin> fst ` set es \<Longrightarrow> range_assign conv es m k = m k"
  by (induction es arbitrary: m) auto

lemma notification_annotations_append:
  "notification_annotations ns acc =
     acc @ concat (map (\<lambda>n. (if n_Discord n \<noteq> [] then [''    discord: '' @ quoted (n_Discord n)] else [])
                          @ (if n_Email n \<noteq> [] then [''    email: '' @ quoted (n_Email n)] else [])) ns)"
  by (induction ns arbitrary: acc) (simp_all add: Let_def)

lemma buildPrometheusRule_for:
  "buildPrometheusRule alertRule ''for'' =
     (if spec_For (ar_Spec alertRule) = [] then None
      else Some (JString (spec_For (ar_Spec alertRule))))"
  by (simp add: buildPrometheusRule_def Let_def split: option.splits)

lemma buildPrometheusRule_annotations:
  "(buildPrometheusRule alertRule ''annotations'' = None) =
     (spec_Annotations (ar_Spec alertRule) = None)"
  by (simp add: buildPrometheusRule_def Let_def split: option.splits)

lemma buildPrometheusRule_severity:
  assumes "''severity'' \<notin> fst ` set (entries (spec_Labels (ar_Spec alertRule)))"
  shows "\<exists>labels. buildPrometheusRule alertRule ''labels'' = Some (JObject labels) \<and>
           labels ''severity'' = Some (JString (spec_Severity (ar_Spec alertRule)))"
proof (cases "spec_Labels (ar_Spec alertRule)")
  case None
  then show ?thesis by (simp add: buildPrometheusRule_def Let_def split: option.splits)
next
  case (Some es)
  then have "''severity'' \<notin> fst ` set es" using assms by (simp add: entries_def)
  then have "range_assign JString es [''severity'' \<mapsto> JString (spec_Severity (ar_Spec alertRule))]
               ''severity'' = Some (JString (spec_Severity (ar_Spec alertRule)))"
    by (simp add: range_assign_other)
  then show ?thesis using Some by (simp add: buildPrometheusRule_def Let_def split: option.splits)
qed

lemma ruleYAML_lines:
  "\<exists>rest. ruleYAML r rule =
      ''- alert: '' @ rule_Name rule @ newline
      @ ''  expr: '' @ rule_Condition rule @ newline
      @ ''  for: '' @ rule_Duration rule @ newline
      @ ''  labels:'' @ newline
      @ ''    alertname: '' @ quoted (rule_Name rule) @ newline
      @ ''    severity: '' @ quoted (rule_Severity rule) @ newline
      @ rest"
  by (simp add: ruleYAML_def Let_def)

text \<open>
  Claim C9, amended. In the PrometheusRule variant the rule has no \<^verbatim>\<open>for\<close> key when the
  spec's \<^verbatim>\<open>for\<close> is empty and no \<^verbatim>\<open>annotations\<close> key exactly when the spec's annotations
  map is nil, while its labels always hold \<^verbatim>\<open>severity\<close> with the spec's severity, the
  empty string included (unless a label of the spec named \<^verbatim>\<open>severity\<close> replaces it).
  In the ConfigMap variant the text of every rule has the \<^verbatim>\<open>for\<close> and \<^verbatim>\<open>severity\<close> lines
  whatever their values, and only empty discord and email channels are left out.
\<close>

theorem optional_fields_rendering:
  "buildPrometheusRule alertRule ''for'' =
     (if spec_For (ar_Spec alertRule) = [] then None
      else Some (JString (spec_For (ar_Spec alertRule))))
   \<and> (buildPrometheusRule alertRule ''annotations'' = None) =
       (spec_Annotations (ar_Spec alertRule) = None)
   \<and> (''severity'' \<notin> fst ` set (entries (spec_Labels (ar_Spec alertRule))) \<longrightarrow>
        (\<exists>labels. buildPrometheusRule alertRule ''labels'' = Some (JObject labels) \<and>
           labels ''severity'' = Some (JString (spec_Severity (ar_Spec alertRule)))))
   \<and> (\<exists>rest. ruleYAML r rule =
          ''- alert: '' @ rule_Name rule @ newline
          @ ''  expr: '' @ rule_Condition rule @ newline
          @ ''  for: '' @ rule_Duration rule @ newline
          @ ''  labels:'' @ newline
          @ ''    alertname: '' @ quoted (rule_Name rule) @ newline
          @ ''    severity: '' @ quoted (rule_Severity rule) @ newline
          @ rest)
   \<and> notification_annotations ns acc =
       acc @ concat (map (\<lambda>n. (if n_Discord n \<noteq> [] then [''    discord: '' @ quoted (n_Discord n)] else [])
                            @ (if n_Email n \<noteq> [] then [''    email: '' @ quoted (n_Email n)] else [])) ns)"
  using buildPrometheusRule_for [of alertRule] buildPrometheusRule_annotations [of alertRule]
    buildPrometheusRule_severity [of alertRule] ruleYAML_lines [of r rule]
    notification_annotations_append [of ns acc]
  by blast

theorem optional_fields_rendering_witness:
  "buildPrometheusRule silent_alert ''for'' = None \<and>
   buildPrometheusRule silent_alert ''annotations'' = None \<and>
   buildPrometheusRule labelled_alert ''annotations'' \<noteq> None \<and>
   (\<exists>labels. buildPrometheusRule labelled_alert ''labels'' = Some (JObject labels) \<and>
      labels ''severity'' = Some (JString ''warning'')) \<and>
   notification_annotations [\<lparr>n_Discord = [], n_Email = ''ops@example.com''\<rparr>] []
     = [''    email: '' @ quoted ''ops@example.com'']"
proof -
  have h: "''severity'' \<notin> fst ` set (entries (spec_Labels (ar_Spec labelled_alert)))"
    by (simp add: labelled_alert_def entries_def)
  have v: "spec_For (ar_Spec silent_alert) = []" "spec_Annotations (ar_Spec silent_alert) = None"
      "spec_Annotations (ar_Spec labelled_alert) \<noteq> None"
      "spec_Severity (ar_Spec labelled_alert) = ''warning''"
    by (simp_all add: silent_alert_def labelled_alert_def checkout_alert_def)
  show ?thesis
    using optional_fields_rendering [of silent_alert web_rules "hd (rs_Rules (ra_Spec web_rules))" "[]" "[]"]
      optional_fields_rendering [of labelled_alert web_rules "hd (rs_Rules (ra_Spec web_rules))"
        "[\<lparr>n_Discord = [], n_Email = ''ops@example.com''\<rparr>]" "[]"] h v
    by simp
qed

theorem empty_severity_is_emitted:
  "spec_Severity (ar_Spec silent_alert) = [] \<and>
   buildPrometheusRule silent_alert ''labels'' = Some (JObject [''severity'' \<mapsto> JString []]) \<and>
   rule_Duration (hd (rs_Rules (ra_Spec web_rules))) = [] \<and>
   rule_Severity (hd (rs_Rules (ra_Spec web_rules))) = [] \<and>
   fst (generateAlertRulesYAML web_rules) =
     ''groups:'' @ newline @ ''- name: web'' @ newline @ ''  rules:'' @ newline
     @ ''- alert: WebDown'' @ newline
     @ ''  expr: up == 0'' @ newline
     @ ''  for: '' @ newline
     @ ''  labels:'' @ newline
     @ ''    alertname: '' @ quoted ''WebDown'' @ newline
     @ ''    severity: '' @ quoted [] @ newline
     @ ''    deployment: '' @ quoted ''web'' @ newline
     @ ''  annotations:'' @ newline
     @ ''    summary: '' @ quoted ''WebDown'' @ newline
     @ ''    severity: '' @ quoted [] @ newline
     @ ''    email: '' @ quoted ''ops@example.com'' @ newline"
  by (simp add: silent_alert_def checkout_alert_def buildPrometheusRule_def web_rules_def
        generateAlertRulesYAML_def ruleYAML_def Let_def)


section \<open>Reconciling without store errors\<close>

lemma next_fault_quiet: "faults w = [] \<Longrightarrow> next_fault w = (None, w)"
  by (cases w) (simp add: next_fault_def peek_fault_def)

lemma cm_next_fault_quiet: "cm_faults v = [] \<Longrightarrow> cm_next_fault v = (None, v)"
  by (cases v) (simp add: cm_next_fault_def peek_fault_def)

lemma createPrometheusRule_key:
  "pr_Name (createPrometheusRule alertRule) = ar_Name alertRule"
  "pr_Namespace (createPrometheusRule alertRule) = ar_Namespace alertRule"
  by (simp_all add: createPrometheusRule_def Let_def)

lemma reconcilePrometheusRule_quiet:
  assumes "faults w = []"
  shows "\<exists>w' p. reconcilePrometheusRule alertRule w = (None, w') \<and> faults w' = [] \<and>
           alertRules w' = alertRules w \<and> deployments w' = deployments w \<and>
           prometheusRules w' =
             (prometheusRules w)((ar_Namespace alertRule, ar_Name alertRule) \<mapsto> p) \<and>
           pr_Name p = ar_Name alertRule \<and> pr_Namespace p = ar_Namespace alertRule \<and>
           pr_spec p = pr_spec (createPrometheusRule alertRule) \<and>
           pr_Labels p = pr_Labels (createPrometheusRule alertRule) \<and>
           pr_OwnerReferences p = pr_OwnerReferences (createPrometheusRule alertRule)"
proof (cases "prometheusRules w (ar_Namespace alertRule, ar_Name alertRule)")
  case None
  show ?thesis
    using None assms
    apply (simp add: reconcilePrometheusRule_def Get_PrometheusRule_def Create_PrometheusRule_def
          next_fault_quiet store_get_def store_create_def createPrometheusRule_key Let_def)
    apply (rule exI [of _ "createPrometheusRule alertRule"])
    apply (simp add: createPrometheusRule_key)
    done
next
  case (Some existing)
  show ?thesis
    using Some assms
    apply (simp add: reconcilePrometheusRule_def Get_PrometheusRule_def Update_PrometheusRule_def
          next_fault_quiet store_get_def store_update_def createPrometheusRule_key Let_def)
    apply (rule exI [of _ "(createPrometheusRule alertRule)
               \<lparr>pr_UID := pr_UID existing, pr_ResourceVersion := pr_ResourceVersion existing\<rparr>"])
    apply (simp add: createPrometheusRule_key)
    done
qed

lemma updateStatus_frame:
  "updateStatus alertRule w = (e, alertRule', w') \<Longrightarrow>
     prometheusRules w' = prometheusRules w \<and> deployments w' = deployments w"
  by (auto simp: updateStatus_def Get_PrometheusRule_def Status_Update_AlertRule_def
        next_fault_def Let_def split: prod.splits option.splits)

lemma AlertRuleReconciler_quiet:
  assumes quiet: "faults w = []"
      and ex: "alertRules w req = Some alertRule"
      and live: "IsZero (ar_DeletionTimestamp alertRule)"
  shows "\<exists>p. prometheusRules (snd (AlertRuleReconciler_Reconcile req w))
                (ar_Namespace alertRule, ar_Name alertRule) = Some p \<and>
             pr_Name p = ar_Name alertRule \<and> pr_Namespace p = ar_Namespace alertRule \<and>
             pr_spec p = pr_spec (createPrometheusRule alertRule)"
proof -
  have g: "Get_AlertRule req w = (Inr alertRule, w)"
    using quiet ex by (simp add: Get_AlertRule_def next_fault_quiet store_get_def)
  obtain w1 p where r: "reconcilePrometheusRule alertRule w = (None, w1)"
      and m: "prometheusRules w1 =
                (prometheusRules w)((ar_Namespace alertRule, ar_Name alertRule) \<mapsto> p)"
      and p: "pr_Name p = ar_Name alertRule" "pr_Namespace p = ar_Namespace alertRule"
             "pr_spec p = pr_spec (createPrometheusRule alertRule)"
    using reconcilePrometheusRule_quiet [OF quiet, of alertRule] by blast
  obtain e a' w2 where u: "updateStatus alertRule w1 = (e, a', w2)"
    by (cases "updateStatus alertRule w1") auto
  have "prometheusRules w2 = prometheusRules w1"
    using updateStatus_frame [OF u] by simp
  moreover have "AlertRuleReconciler_Reconcile req w = (e, w2)"
    using g r u live by (simp add: AlertRuleReconciler_Reconcile_def)
  ultimately show ?thesis using m p by simp
qed


lemma cm_updateStatus_quiet:
  assumes "cm_faults v = []"
      and "rulesAlertRules v (ra_Namespace r, ra_Name r) \<noteq> None"
  shows "\<exists>r' v'. cm_updateStatus r c v = (None, r', v') \<and> cm_faults v' = [] \<and>
           configMaps v' = configMaps v \<and>
           rulesAlertRules v' (ra_Namespace r, ra_Name r) \<noteq> None \<and>
           ra_Name r' = ra_Name r \<and> ra_Namespace r' = ra_Namespace r \<and>
           ra_Spec r' = ra_Spec r"
proof -
  obtain stored where st: "rulesAlertRules v (ra_Namespace r, ra_Name r) = Some stored"
    using assms(2) by auto
  show ?thesis
    using st assms(1)
    by (simp add: cm_updateStatus_def Status_Update_RulesAlertRule_def cm_next_fault_quiet Let_def)
qed

lemma Get_ConfigMap_quiet:
  "cm_faults v = [] \<Longrightarrow> Get_ConfigMap k v = (store_get None (configMaps v) k, v)"
  by (simp add: Get_ConfigMap_def cm_next_fault_quiet)

lemma Create_ConfigMap_quiet:
  assumes "cm_faults v = []" "configMaps v (cm_Namespace cm, cm_Name cm) = None"
  shows "Create_ConfigMap cm v =
           (None, v\<lparr>configMaps := (configMaps v)((cm_Namespace cm, cm_Name cm) \<mapsto> cm)\<rparr>)"
  using assms by (simp add: Create_ConfigMap_def cm_next_fault_quiet store_create_def)

lemma Update_ConfigMap_quiet:
  assumes "cm_faults v = []" "configMaps v (cm_Namespace cm, cm_Name cm) = Some old"
  shows "Update_ConfigMap cm v =
           (None, v\<lparr>configMaps := (configMaps v)((cm_Namespace cm, cm_Name cm) \<mapsto> cm)\<rparr>)"
  using assms by (simp add: Update_ConfigMap_def cm_next_fault_quiet store_update_def)

lemma Reconcile_upsert_quiet:
  assumes "cm_faults v = []"
      and "\<forall>c. configMaps v (cm_Namespace cm, cm_Name cm) = Some c \<longrightarrow>
                cm_Namespace c = cm_Namespace cm \<and> cm_Name c = cm_Name cm"
  shows "\<exists>v' c. Reconcile_upsert r cm v = (None, v') \<and> cm_faults v' = [] \<and>
           rulesAlertRules v' = rulesAlertRules v \<and>
           configMaps v' (cm_Namespace cm, cm_Name cm) = Some c \<and>
           cm_Name c = cm_Name cm \<and> cm_Namespace c = cm_Namespace cm \<and>
           cm_Data c = cm_Data cm \<and> cm_Labels c = cm_Labels cm"
proof (cases "configMaps v (cm_Namespace cm, cm_Name cm)")
  case None
  have "Reconcile_upsert r cm v =
          (None, v\<lparr>configMaps := (configMaps v)((cm_Namespace cm, cm_Name cm) \<mapsto> cm)\<rparr>)"
    using None assms(1)
    by (simp add: Reconcile_upsert_def Get_ConfigMap_quiet Create_ConfigMap_quiet store_get_def)
  then show ?thesis using assms(1) by simp
next
  case (Some existing)
  let ?new = "existing\<lparr>cm_Data := cm_Data cm, cm_Labels := cm_Labels cm\<rparr>"
  have k: "cm_Namespace ?new = cm_Namespace cm" "cm_Name ?new = cm_Name cm"
    using assms(2) Some by simp_all
  have "Update_ConfigMap ?new v =
          (None, v\<lparr>configMaps := (configMaps v)((cm_Namespace cm, cm_Name cm) \<mapsto> ?new)\<rparr>)"
    using Update_ConfigMap_quiet [of v ?new existing] assms(1) Some k by simp
  then have "Reconcile_upsert r cm v =
          (None, v\<lparr>configMaps := (configMaps v)((cm_Namespace cm, cm_Name cm) \<mapsto> ?new)\<rparr>)"
    using Some assms(1)
    by (simp add: Reconcile_upsert_def Get_ConfigMap_quiet store_get_def)
  then show ?thesis using assms(1) k by simp
qed

lemma cm_Reconcile_quiet:
  assumes quiet: "cm_faults v = []"
      and ex: "rulesAlertRules v req = Some r"
      and key: "req = (ra_Namespace r, ra_Name r)"
      and wf: "\<forall>c. configMaps v (ra_Namespace r, ''alertrule-'' @ ra_Name r) = Some c \<longrightarrow>
                  cm_Namespace c = ra_Namespace r \<and> cm_Name c = ''alertrule-'' @ ra_Name r"
  shows "\<exists>v' c. cm_Reconcile req v = (None, v') \<and>
           configMaps v' (ra_Namespace r, ''alertrule-'' @ ra_Name r) = Some c \<and>
           cm_Name c = ''alertrule-'' @ ra_Name r \<and> cm_Namespace c = ra_Namespace r \<and>
           cm_Data c = [''alertrules.yaml'' \<mapsto> fst (generateAlertRulesYAML r)]"
proof -
  have g: "Get_RulesAlertRule req v = (Inr r, v)"
    using quiet ex by (simp add: Get_RulesAlertRule_def cm_next_fault_quiet store_get_def)
  have here: "rulesAlertRules v (ra_Namespace r, ra_Name r) \<noteq> None"
    using ex key by simp
  obtain r1 v1 where u1: "cm_updateStatus r
        (mkCondition ''Progressing'' ConditionTrue ''Reconciling'' ''Reconciling AlertRule'') v
          = (None, r1, v1)"
      and q1: "cm_faults v1 = []" and c1: "configMaps v1 = configMaps v"
      and s1: "rulesAlertRules v1 (ra_Namespace r, ra_Name r) \<noteq> None"
      and r1: "ra_Name r1 = ra_Name r" "ra_Namespace r1 = ra_Namespace r" "ra_Spec r1 = ra_Spec r"
    using cm_updateStatus_quiet [OF quiet here] by blast
  have y: "generateAlertRulesYAML r1 = (fst (generateAlertRulesYAML r), None)"
    using generateAlertRulesYAML_spec_only [OF r1(1) r1(3)]
    by (simp add: generateAlertRulesYAML_def)
  let ?cm = "Reconcile_configMap r1 (fst (generateAlertRulesYAML r))"
  have cmk: "cm_Namespace ?cm = ra_Namespace r" "cm_Name ?cm = ''alertrule-'' @ ra_Name r"
      "cm_Data ?cm = [''alertrules.yaml'' \<mapsto> fst (generateAlertRulesYAML r)]"
    using r1 by (simp_all add: Reconcile_configMap_def)
  have wf1: "\<forall>c. configMaps v1 (cm_Namespace ?cm, cm_Name ?cm) = Some c \<longrightarrow>
                cm_Namespace c = cm_Namespace ?cm \<and> cm_Name c = cm_Name ?cm"
    using wf c1 cmk by simp
  obtain v2 c where u2: "Reconcile_upsert r1 ?cm v1 = (None, v2)"
      and q2: "cm_faults v2 = []" and s2: "rulesAlertRules v2 = rulesAlertRules v1"
      and c2: "configMaps v2 (cm_Namespace ?cm, cm_Name ?cm) = Some c"
      and cc: "cm_Name c = cm_Name ?cm" "cm_Namespace c = cm_Namespace ?cm"
              "cm_Data c = cm_Data ?cm"
    using Reconcile_upsert_quiet [OF q1 wf1, of r1] by blast
  have here2: "rulesAlertRules v2 (ra_Namespace r1, ra_Name r1) \<noteq> None"
    using s1 s2 r1 by simp
  obtain r3 v3 where u3: "cm_updateStatus r1
        (mkCondition ''Available'' ConditionTrue ''Reconciled''
           (''AlertRule reconciled successfully. ConfigMap: '' @ ''alertrule-'' @ ra_Name r1)) v2
          = (None, r3, v3)"
      and c3: "configMaps v3 = configMaps v2"
    using cm_updateStatus_quiet [OF q2 here2] by blast
  have "cm_Reconcile req v = (None, v3)"
    using g u1 y u2 u3 by (simp add: cm_Reconcile_def Let_def)
  then show ?thesis using c3 c2 cc cmk by simp
qed


text \<open>
  Claim C8, amended. The PrometheusRule has the name and the namespace of its AlertRule,
  as rendered and as stored by a reconcile without store errors. The ConfigMap has the
  namespace of its AlertRule and the name of the AlertRule prefixed with
  \<^verbatim>\<open>alertrule-\<close>, as built and as stored.
\<close>

theorem artifact_identity:
  "pr_Name (createPrometheusRule alertRule) = ar_Name alertRule
   \<and> pr_Namespace (createPrometheusRule alertRule) = ar_Namespace alertRule
   \<and> cm_Name (Reconcile_configMap r yaml) = ''alertrule-'' @ ra_Name r
   \<and> cm_Namespace (Reconcile_configMap r yaml) = ra_Namespace r
   \<and> (faults w = [] \<and> alertRules w req = Some alertRule \<and>
        IsZero (ar_DeletionTimestamp alertRule) \<longrightarrow>
        (\<exists>p. prometheusRules (snd (AlertRuleReconciler_Reconcile req w))
                (ar_Namespace alertRule, ar_Name alertRule) = Some p \<and>
             pr_Name p = ar_Name alertRule \<and> pr_Namespace p = ar_Namespace alertRule))
   \<and> (cm_faults v = [] \<and> rulesAlertRules v creq = Some r \<and>
        creq = (ra_Namespace r, ra_Name r) \<and>
        (\<forall>c. configMaps v (ra_Namespace r, ''alertrule-'' @ ra_Name r) = Some c \<longrightarrow>
              cm_Namespace c = ra_Namespace r \<and> cm_Name c = ''alertrule-'' @ ra_Name r) \<longrightarrow>
        (\<exists>v' c. cm_Reconcile creq v = (None, v') \<and>
             configMaps v' (ra_Namespace r, ''alertrule-'' @ ra_Name r) = Some c \<and>
             cm_Name c = ''alertrule-'' @ ra_Name r \<and> cm_Namespace c = ra_Namespace r))"
proof -
  have a: "pr_Name (createPrometheusRule alertRule) = ar_Name alertRule"
      "pr_Namespace (createPrometheusRule alertRule) = ar_Namespace alertRule"
    by (rule createPrometheusRule_key)+
  have b: "cm_Name (Reconcile_configMap r yaml) = ''alertrule-'' @ ra_Name r"
      "cm_Namespace (Reconcile_configMap r yaml) = ra_Namespace r"
    by (simp_all add: Reconcile_configMap_def)
  have c: "faults w = [] \<and> alertRules w req = Some alertRule \<and>
        IsZero (ar_DeletionTimestamp alertRule) \<longrightarrow>
        (\<exists>p. prometheusRules (snd (AlertRuleReconciler_Reconcile req w))
                (ar_Namespace alertRule, ar_Name alertRule) = Some p \<and>
             pr_Name p = ar_Name alertRule \<and> pr_Namespace p = ar_Namespace alertRule)"
    using AlertRuleReconciler_quiet [of w req alertRule] by blast
  have d: "cm_faults v = [] \<and> rulesAlertRules v creq = Some r \<and>
        creq = (ra_Namespace r, ra_Name r) \<and>
        (\<forall>c. configMaps v (ra_Namespace r, ''alertrule-'' @ ra_Name r) = Some c \<longrightarrow>
              cm_Namespace c = ra_Namespace r \<and> cm_Name c = ''alertrule-'' @ ra_Name r) \<longrightarrow>
        (\<exists>v' c. cm_Reconcile creq v = (None, v') \<and>
             configMaps v' (ra_Namespace r, ''alertrule-'' @ ra_Name r) = Some c \<and>
             cm_Name c = ''alertrule-'' @ ra_Name r \<and> cm_Namespace c = ra_Namespace r)"
    using cm_Reconcile_quiet [of v creq r] by blast
  show ?thesis using a b c d by blast
qed

theorem artifact_identity_witness:
  "(\<exists>p. prometheusRules (snd (AlertRuleReconciler_Reconcile (''shop'', ''checkout-alert'')
             shop_alerting)) (''shop'', ''checkout-alert'') = Some p \<and>
        pr_Name p = ''checkout-alert'' \<and> pr_Namespace p = ''shop'')
   \<and> (\<exists>v' c. cm_Reconcile (''shop'', ''web'') web_cluster = (None, v') \<and>
        configMaps v' (''shop'', ''alertrule-web'') = Some c \<and>
        cm_Name c = ''alertrule-web'' \<and> cm_Namespace c = ''shop'')"
proof -
  have h1: "faults shop_alerting = []"
      "alertRules shop_alerting (''shop'', ''checkout-alert'') = Some checkout_alert"
      "IsZero (ar_DeletionTimestamp checkout_alert)"
    by (simp_all add: shop_alerting_def shop_empty_def checkout_alert_def IsZero_def)
  have h2: "cm_faults web_cluster = []"
      "rulesAlertRules web_cluster (''shop'', ''web'') = Some web_rules"
      "(''shop'', ''web'') = (ra_Namespace web_rules, ra_Name web_rules)"
      "\<forall>c. configMaps web_cluster (ra_Namespace web_rules, ''alertrule-'' @ ra_Name web_rules)
             = Some c \<longrightarrow>
           cm_Namespace c = ra_Namespace web_rules \<and>
           cm_Name c = ''alertrule-'' @ ra_Name web_rules"
    by (simp_all add: web_cluster_def web_rules_def)
  have n: "ar_Namespace checkout_alert = ''shop''" "ar_Name checkout_alert = ''checkout-alert''"
      "ra_Namespace web_rules = ''shop''" "ra_Name web_rules = ''web''"
    by (simp_all add: checkout_alert_def web_rules_def)
  from artifact_identity [of checkout_alert web_rules "[]" shop_alerting
      "(''shop'', ''checkout-alert'')" web_cluster "(''shop'', ''web'')"]
  have "(\<exists>p. prometheusRules (snd (AlertRuleReconciler_Reconcile (''shop'', ''checkout-alert'')
             shop_alerting)) (ar_Namespace checkout_alert, ar_Name checkout_alert) = Some p \<and>
          pr_Name p = ar_Name checkout_alert \<and> pr_Namespace p = ar_Namespace checkout_alert)"
    and "(\<exists>v' c. cm_Reconcile (''shop'', ''web'') web_cluster = (None, v') \<and>
          configMaps v' (ra_Namespace web_rules, ''alertrule-'' @ ra_Name web_rules) = Some c \<and>
          cm_Name c = ''alertrule-'' @ ra_Name web_rules \<and> cm_Namespace c = ra_Namespace web_rules)"
    using h1 h2 by blast+
  then show ?thesis unfolding n by simp
qed

theorem configmap_name_is_prefixed:
  "ra_Name web_rules = ''web'' \<and>
   cm_Name (Reconcile_configMap web_rules (fst (generateAlertRulesYAML web_rules)))
     = ''alertrule-web'' \<and>
   cm_Name (Reconcile_configMap web_rules (fst (generateAlertRulesYAML web_rules)))
     \<noteq> ra_Name web_rules \<and>
   fst (cm_Reconcile (''shop'', ''web'') web_cluster) = None \<and>
   configMaps (snd (cm_Reconcile (''shop'', ''web'') web_cluster)) (''shop'', ''web'') = None \<and>
   configMaps (snd (cm_Reconcile (''shop'', ''web'') web_cluster)) (''shop'', ''alertrule-web'')
     \<noteq> None"
  by (simp add: web_cluster_def web_rules_def cm_Reconcile_def Get_RulesAlertRule_def
       cm_next_fault_def peek_fault_def store_get_def cm_updateStatus_def mkCondition_def
       setCondition_def Status_Update_RulesAlertRule_def generateAlertRulesYAML_def
       Reconcile_upsert_def Reconcile_configMap_def Get_ConfigMap_def Create_ConfigMap_def
       store_create_def Let_def)

section \<open>The deletion fallback\<close>

lemma Get_PrometheusRule_quiet:
  "faults w = [] \<Longrightarrow> Get_PrometheusRule k w = (store_get None (prometheusRules w) k, w)"
  by (simp add: Get_PrometheusRule_def next_fault_quiet)

lemma Delete_PrometheusRule_quiet:
  assumes "faults w = []" "prometheusRules w (pr_Namespace p, pr_Name p) = Some old"
  shows "Delete_PrometheusRule p w =
           (None, w\<lparr>prometheusRules := (prometheusRules w)((pr_Namespace p, pr_Name p) := None)\<rparr>)"
  using assms by (simp add: Delete_PrometheusRule_def next_fault_quiet store_delete_def)

lemma deletePrometheusRule_quiet:
  assumes quiet: "faults w = []"
      and wf: "\<forall>p. prometheusRules w (ns, n) = Some p \<longrightarrow> (pr_Namespace p, pr_Name p) = (ns, n)"
  shows "\<exists>w'. deletePrometheusRule ns n w = (None, w') \<and> faults w' = [] \<and>
           prometheusRules w' = (prometheusRules w)((ns, n) := None) \<and>
           alertRules w' = alertRules w \<and> deployments w' = deployments w"
proof (cases "prometheusRules w (ns, n)")
  case None
  have "deletePrometheusRule ns n w = (None, w)"
    using None quiet
    by (simp add: deletePrometheusRule_def Get_PrometheusRule_quiet store_get_def)
  moreover have "(prometheusRules w)((ns, n) := None) = prometheusRules w"
    using None by (simp add: fun_eq_iff)
  ultimately show ?thesis using quiet by simp
next
  case (Some p)
  then have k: "pr_Namespace p = ns" "pr_Name p = n" using wf by simp_all
  have "Delete_PrometheusRule p w =
          (None, w\<lparr>prometheusRules := (prometheusRules w)((ns, n) := None)\<rparr>)"
    using Delete_PrometheusRule_quiet [of w p p] quiet Some k by simp
  then have "deletePrometheusRule ns n w =
          (None, w\<lparr>prometheusRules := (prometheusRules w)((ns, n) := None)\<rparr>)"
    using Some quiet
    by (simp add: deletePrometheusRule_def Get_PrometheusRule_quiet store_get_def)
  then show ?thesis using quiet by simp
qed

lemma AlertRuleReconciler_absent:
  assumes quiet: "faults w = []"
      and gone: "alertRules w req = None"
      and wf: "\<forall>p. prometheusRules w req = Some p \<longrightarrow> (pr_Namespace p, pr_Name p) = req"
  shows "\<exists>w'. AlertRuleReconciler_Reconcile req w = (None, w') \<and>
           prometheusRules w' req = None \<and>
           (\<forall>k. k \<noteq> req \<longrightarrow> prometheusRules w' k = prometheusRules w k) \<and>
           alertRules w' = alertRules w \<and> deployments w' = deployments w \<and>
           AlertRuleReconciler_Reconcile req w' = (None, w')"
proof -
  have g: "faults u = [] \<Longrightarrow> alertRules u req = None \<Longrightarrow>
           AlertRuleReconciler_Reconcile req u = deletePrometheusRule (fst req) (snd req) u" for u
    by (simp add: AlertRuleReconciler_Reconcile_def Get_AlertRule_def next_fault_quiet store_get_def)
  have wf': "\<forall>p. prometheusRules w (fst req, snd req) = Some p \<longrightarrow>
               (pr_Namespace p, pr_Name p) = (fst req, snd req)"
    using wf by simp
  obtain w' where d: "deletePrometheusRule (fst req) (snd req) w = (None, w')"
      and q: "faults w' = []"
      and m: "prometheusRules w' = (prometheusRules w)((fst req, snd req) := None)"
      and f: "alertRules w' = alertRules w" "deployments w' = deployments w"
    using deletePrometheusRule_quiet [OF quiet wf'] by blast
  have m': "prometheusRules w' = (prometheusRules w)(req := None)" using m by simp
  have none: "prometheusRules w' (fst req, snd req) = None" using m by simp
  have again: "deletePrometheusRule (fst req) (snd req) w' = (None, w')"
    using none q
    by (simp add: deletePrometheusRule_def Get_PrometheusRule_quiet store_get_def)
  have "AlertRuleReconciler_Reconcile req w = (None, w')" using g [OF quiet gone] d by simp
  moreover have "AlertRuleReconciler_Reconcile req w' = (None, w')"
    using g [OF q] gone f again by simp
  ultimately show ?thesis using m' f by simp
qed

lemma cm_Reconcile_absent:
  "cm_faults v = [] \<Longrightarrow> rulesAlertRules v creq = None \<Longrightarrow> cm_Reconcile creq v = (None, v)"
  by (simp add: cm_Reconcile_def Get_RulesAlertRule_def cm_next_fault_quiet store_get_def)

lemma benign_peek:
  "\<forall>f \<in> set fs. f = None \<or> f = Some NotFound \<Longrightarrow>
   peek_fault fs = None \<or> peek_fault fs = Some NotFound"
  by (cases fs) (auto simp: peek_fault_def)

lemma benign_tl:
  "\<forall>f \<in> set fs. f = None \<or> f = Some NotFound \<Longrightarrow>
   \<forall>f \<in> set (tl fs). f = None \<or> f = Some NotFound"
  by (cases fs) auto

lemma Get_PrometheusRule_result:
  "Get_PrometheusRule k w =
     (store_get (peek_fault (faults w)) (prometheusRules w) k, w\<lparr>faults := tl (faults w)\<rparr>)"
  by (simp add: Get_PrometheusRule_def next_fault_def)

lemma Delete_PrometheusRule_error:
  assumes "Delete_PrometheusRule p w = (Some e, w')"
  shows "e = NotFound \<or> peek_fault (faults w) = Some e"
  using assms
  by (cases "peek_fault (faults w)"; cases "prometheusRules w (pr_Namespace p, pr_Name p)")
     (auto simp: Delete_PrometheusRule_def next_fault_def store_delete_def)

lemma Delete_PrometheusRule_only_removes:
  assumes "Delete_PrometheusRule p w = (e, w')"
  shows "alertRules w' = alertRules w \<and> deployments w' = deployments w \<and>
         (\<forall>k. prometheusRules w' k = prometheusRules w k \<or> prometheusRules w' k = None)"
  using assms
  by (cases "peek_fault (faults w)"; cases "prometheusRules w (pr_Namespace p, pr_Name p)")
     (auto simp: Delete_PrometheusRule_def next_fault_def store_delete_def split: if_splits)

lemma deletePrometheusRule_error:
  assumes "deletePrometheusRule ns n w = (Some e, w')"
  shows "e \<noteq> NotFound \<and>
         (peek_fault (faults w) = Some e \<or> peek_fault (tl (faults w)) = Some e)"
proof (cases "store_get (peek_fault (faults w)) (prometheusRules w) (ns, n)")
  case (Inl err)
  then have "deletePrometheusRule ns n w =
      (if err = NotFound then None else Some err, w\<lparr>faults := tl (faults w)\<rparr>)"
    by (simp add: deletePrometheusRule_def Get_PrometheusRule_result)
  then have "err \<noteq> NotFound" "e = err" using assms by (auto split: if_splits)
  moreover have "peek_fault (faults w) = Some err"
    using Inl \<open>err \<noteq> NotFound\<close>
    by (auto simp: store_get_def split: option.splits)
  ultimately show ?thesis by simp
next
  case (Inr p)
  let ?w1 = "w\<lparr>faults := tl (faults w)\<rparr>"
  obtain de w2 where d: "Delete_PrometheusRule p ?w1 = (de, w2)"
    by (cases "Delete_PrometheusRule p ?w1")
  show ?thesis
  proof (cases de)
    case None
    then have "deletePrometheusRule ns n w = (None, w2)"
      using Inr d by (simp add: deletePrometheusRule_def Get_PrometheusRule_result)
    then show ?thesis using assms by simp
  next
    case (Some err)
    then have "deletePrometheusRule ns n w = (if err \<noteq> NotFound then Some err else None, w2)"
      using Inr d by (simp add: deletePrometheusRule_def Get_PrometheusRule_result)
    then have ne: "err \<noteq> NotFound" and ee: "e = err" using assms by (auto split: if_splits)
    have "err = NotFound \<or> peek_fault (faults ?w1) = Some err"
      using Delete_PrometheusRule_error [of p ?w1 err w2] d Some by simp
    then show ?thesis using ne ee by simp
  qed
qed

lemma deletePrometheusRule_only_removes:
  assumes "deletePrometheusRule ns n w = (e, w')"
  shows "alertRules w' = alertRules w \<and> deployments w' = deployments w \<and>
         (\<forall>k. prometheusRules w' k = prometheusRules w k \<or> prometheusRules w' k = None)"
proof (cases "store_get (peek_fault (faults w)) (prometheusRules w) (ns, n)")
  case (Inl err)
  then have "deletePrometheusRule ns n w =
      (if err = NotFound then None else Some err, w\<lparr>faults := tl (faults w)\<rparr>)"
    by (simp add: deletePrometheusRule_def Get_PrometheusRule_result)
  then have "w' = w\<lparr>faults := tl (faults w)\<rparr>" using assms by simp
  then show ?thesis by simp
next
  case (Inr p)
  let ?w1 = "w\<lparr>faults := tl (faults w)\<rparr>"
  obtain de w2 where d: "Delete_PrometheusRule p ?w1 = (de, w2)"
    by (cases "Delete_PrometheusRule p ?w1")
  have "snd (deletePrometheusRule ns n w) = w2"
    using Inr d by (cases de) (simp_all add: deletePrometheusRule_def Get_PrometheusRule_result)
  then have "w' = w2" using assms by simp
  then show ?thesis using Delete_PrometheusRule_only_removes [OF d] by simp
qed

lemma AlertRuleReconciler_absent_path:
  assumes "alertRules w req = None"
  shows "(\<exists>e. e \<noteq> NotFound \<and> peek_fault (faults w) = Some e \<and>
            AlertRuleReconciler_Reconcile req w = (Some e, w\<lparr>faults := tl (faults w)\<rparr>))
         \<or> AlertRuleReconciler_Reconcile req w =
             deletePrometheusRule (fst req) (snd req) (w\<lparr>faults := tl (faults w)\<rparr>)"
proof (cases "peek_fault (faults w)")
  case None
  then show ?thesis
    using assms
    by (simp add: AlertRuleReconciler_Reconcile_def Get_AlertRule_def next_fault_def store_get_def)
next
  case (Some e)
  then show ?thesis
    by (cases "e = NotFound")
       (simp_all add: AlertRuleReconciler_Reconcile_def Get_AlertRule_def next_fault_def
          store_get_def)
qed

lemma AlertRuleReconciler_absent_error:
  assumes gone: "alertRules w req = None"
      and run: "AlertRuleReconciler_Reconcile req w = (Some e, w')"
  shows "e \<noteq> NotFound \<and> Some e \<in> set (faults w)"
proof -
  have mem: "peek_fault fs = Some x \<Longrightarrow> Some x \<in> set fs" for fs :: "api_error option list" and x
    by (cases fs) (auto simp: peek_fault_def)
  have mem_tl: "Some x \<in> set (tl fs) \<Longrightarrow> Some x \<in> set fs" for fs :: "api_error option list" and x
    by (cases fs) auto
  from AlertRuleReconciler_absent_path [OF gone]
  show ?thesis
  proof
    assume "\<exists>e. e \<noteq> NotFound \<and> peek_fault (faults w) = Some e \<and>
            AlertRuleReconciler_Reconcile req w = (Some e, w\<lparr>faults := tl (faults w)\<rparr>)"
    then show ?thesis using run mem by auto
  next
    assume "AlertRuleReconciler_Reconcile req w =
             deletePrometheusRule (fst req) (snd req) (w\<lparr>faults := tl (faults w)\<rparr>)"
    then have "deletePrometheusRule (fst req) (snd req) (w\<lparr>faults := tl (faults w)\<rparr>) = (Some e, w')"
      using run by simp
    from deletePrometheusRule_error [OF this]
    have "e \<noteq> NotFound" and
      "peek_fault (tl (faults w)) = Some e \<or> peek_fault (tl (tl (faults w))) = Some e"
      by simp_all
    then show ?thesis using mem mem_tl by blast
  qed
qed

lemma AlertRuleReconciler_absent_only_removes:
  assumes gone: "alertRules w req = None"
  shows "alertRules (snd (AlertRuleReconciler_Reconcile req w)) = alertRules w \<and>
         deployments (snd (AlertRuleReconciler_Reconcile req w)) = deployments w \<and>
         (\<forall>k. prometheusRules (snd (AlertRuleReconciler_Reconcile req w)) k = prometheusRules w k \<or>
              prometheusRules (snd (AlertRuleReconciler_Reconcile req w)) k = None)"
proof -
  from AlertRuleReconciler_absent_path [OF gone]
  show ?thesis
  proof
    assume "\<exists>e. e \<noteq> NotFound \<and> peek_fault (faults w) = Some e \<and>
            AlertRuleReconciler_Reconcile req w = (Some e, w\<lparr>faults := tl (faults w)\<rparr>)"
    then show ?thesis by auto
  next
    assume a: "AlertRuleReconciler_Reconcile req w =
             deletePrometheusRule (fst req) (snd req) (w\<lparr>faults := tl (faults w)\<rparr>)"
    obtain e w' where d: "deletePrometheusRule (fst req) (snd req) (w\<lparr>faults := tl (faults w)\<rparr>) = (e, w')"
      by (cases "deletePrometheusRule (fst req) (snd req) (w\<lparr>faults := tl (faults w)\<rparr>)")
    from deletePrometheusRule_only_removes [OF d] show ?thesis using a d by simp
  qed
qed

lemma AlertRuleReconciler_absent_benign:
  assumes gone: "alertRules w req = None"
      and benign: "\<forall>f \<in> set (faults w). f = None \<or> f = Some NotFound"
  shows "fst (AlertRuleReconciler_Reconcile req w) = None"
proof (cases "fst (AlertRuleReconciler_Reconcile req w)")
  case None
  then show ?thesis .
next
  case (Some e)
  then have "AlertRuleReconciler_Reconcile req w = (Some e, snd (AlertRuleReconciler_Reconcile req w))"
    by (simp add: prod_eq_iff)
  from AlertRuleReconciler_absent_error [OF gone this]
  have "e \<noteq> NotFound" "Some e \<in> set (faults w)" by simp_all
  then show ?thesis using benign by auto
qed

lemma cm_Reconcile_absent_benign:
  assumes "rulesAlertRules v creq = None"
      and "peek_fault (cm_faults v) = None \<or> peek_fault (cm_faults v) = Some NotFound"
  shows "cm_Reconcile creq v = (None, v\<lparr>cm_faults := tl (cm_faults v)\<rparr>)"
  using assms
  by (auto simp: cm_Reconcile_def Get_RulesAlertRule_def cm_next_fault_def store_get_def)

text \<open>
  Claim C3, amended. When the AlertRule of the key is absent, the AlertRuleReconciler that
  produces a PrometheusRule never reports not-found as an error: it returns success for
  every run in which each store call succeeds or answers not-found (on the fetch of the
  AlertRule, on the fetch of the PrometheusRule or on its delete), an error it returns is
  one the store gave, and all it ever does to the store is to remove PrometheusRules.
  When no store call fails, the PrometheusRule of the same name is absent afterwards,
  whether it existed or not, every other object is as it was, and invoking the reconcile
  again gives the same outcome. The AlertRuleReconciler that produces a ConfigMap returns
  success and leaves the store as it is: it deletes nothing.
\<close>

theorem deletion_fallback:
  "(alertRules w req = None \<and> (\<forall>f \<in> set (faults w). f = None \<or> f = Some NotFound) \<longrightarrow>
      fst (AlertRuleReconciler_Reconcile req w) = None)
   \<and> (alertRules w req = None \<longrightarrow>
        fst (AlertRuleReconciler_Reconcile req w) \<noteq> Some NotFound \<and>
        (\<forall>e. fst (AlertRuleReconciler_Reconcile req w) = Some e \<longrightarrow> Some e \<in> set (faults w)) \<and>
        alertRules (snd (AlertRuleReconciler_Reconcile req w)) = alertRules w \<and>
        deployments (snd (AlertRuleReconciler_Reconcile req w)) = deployments w \<and>
        (\<forall>k. prometheusRules (snd (AlertRuleReconciler_Reconcile req w)) k = prometheusRules w k \<or>
             prometheusRules (snd (AlertRuleReconciler_Reconcile req w)) k = None))
   \<and> (faults w = [] \<and> alertRules w req = None \<and>
       (\<forall>p. prometheusRules w req = Some p \<longrightarrow> (pr_Namespace p, pr_Name p) = req) \<longrightarrow>
        (\<exists>w'. AlertRuleReconciler_Reconcile req w = (None, w') \<and>
            prometheusRules w' req = None \<and>
            (\<forall>k. k \<noteq> req \<longrightarrow> prometheusRules w' k = prometheusRules w k) \<and>
            alertRules w' = alertRules w \<and> deployments w' = deployments w \<and>
            AlertRuleReconciler_Reconcile req w' = (None, w')))
   \<and> (rulesAlertRules v creq = None \<and>
       (peek_fault (cm_faults v) = None \<or> peek_fault (cm_faults v) = Some NotFound) \<longrightarrow>
        cm_Reconcile creq v = (None, v\<lparr>cm_faults := tl (cm_faults v)\<rparr>))
   \<and> (cm_faults v = [] \<and> rulesAlertRules v creq = None \<longrightarrow>
        cm_Reconcile creq v = (None, v))"
proof -
  have a: "alertRules w req = None \<and> (\<forall>f \<in> set (faults w). f = None \<or> f = Some NotFound) \<longrightarrow>
      fst (AlertRuleReconciler_Reconcile req w) = None"
    using AlertRuleReconciler_absent_benign [of w req] by blast
  have b: "alertRules w req = None \<longrightarrow>
        fst (AlertRuleReconciler_Reconcile req w) \<noteq> Some NotFound \<and>
        (\<forall>e. fst (AlertRuleReconciler_Reconcile req w) = Some e \<longrightarrow> Some e \<in> set (faults w))"
  proof
    assume gone: "alertRules w req = None"
    have "e \<noteq> NotFound \<and> Some e \<in> set (faults w)"
      if "fst (AlertRuleReconciler_Reconcile req w) = Some e" for e
    proof -
      have "AlertRuleReconciler_Reconcile req w =
              (Some e, snd (AlertRuleReconciler_Reconcile req w))"
        using that by (simp add: prod_eq_iff)
      then show ?thesis by (rule AlertRuleReconciler_absent_error [OF gone])
    qed
    then show "fst (AlertRuleReconciler_Reconcile req w) \<noteq> Some NotFound \<and>
        (\<forall>e. fst (AlertRuleReconciler_Reconcile req w) = Some e \<longrightarrow> Some e \<in> set (faults w))"
      by blast
  qed
  have c: "alertRules w req = None \<longrightarrow>
        alertRules (snd (AlertRuleReconciler_Reconcile req w)) = alertRules w \<and>
        deployments (snd (AlertRuleReconciler_Reconcile req w)) = deployments w \<and>
        (\<forall>k. prometheusRules (snd (AlertRuleReconciler_Reconcile req w)) k = prometheusRules w k \<or>
             prometheusRules (snd (AlertRuleReconciler_Reconcile req w)) k = None)"
    using AlertRuleReconciler_absent_only_removes [of w req] by blast
  have d: "faults w = [] \<and> alertRules w req = None \<and>
       (\<forall>p. prometheusRules w req = Some p \<longrightarrow> (pr_Namespace p, pr_Name p) = req) \<longrightarrow>
        (\<exists>w'. AlertRuleReconciler_Reconcile req w = (None, w') \<and>
            prometheusRules w' req = None \<and>
            (\<forall>k. k \<noteq> req \<longrightarrow> prometheusRules w' k = prometheusRules w k) \<and>
            alertRules w' = alertRules w \<and> deployments w' = deployments w \<and>
            AlertRuleReconciler_Reconcile req w' = (None, w'))"
    using AlertRuleReconciler_absent [of w req] by blast
  have e: "rulesAlertRules v creq = None \<and>
       (peek_fault (cm_faults v) = None \<or> peek_fault (cm_faults v) = Some NotFound) \<longrightarrow>
        cm_Reconcile creq v = (None, v\<lparr>cm_faults := tl (cm_faults v)\<rparr>)"
    using cm_Reconcile_absent_benign [of v creq] by blast
  have f: "cm_faults v = [] \<and> rulesAlertRules v creq = None \<longrightarrow> cm_Reconcile creq v = (None, v)"
    using cm_Reconcile_absent [of v creq] by blast
  have bc: "alertRules w req = None \<longrightarrow>
        fst (AlertRuleReconciler_Reconcile req w) \<noteq> Some NotFound \<and>
        (\<forall>e. fst (AlertRuleReconciler_Reconcile req w) = Some e \<longrightarrow> Some e \<in> set (faults w)) \<and>
        alertRules (snd (AlertRuleReconciler_Reconcile req w)) = alertRules w \<and>
        deployments (snd (AlertRuleReconciler_Reconcile req w)) = deployments w \<and>
        (\<forall>k. prometheusRules (snd (AlertRuleReconciler_Reconcile req w)) k = prometheusRules w k \<or>
             prometheusRules (snd (AlertRuleReconciler_Reconcile req w)) k = None)"
  proof
    assume gone: "alertRules w req = None"
    from b gone have b': "fst (AlertRuleReconciler_Reconcile req w) \<noteq> Some NotFound \<and>
        (\<forall>e. fst (AlertRuleReconciler_Reconcile req w) = Some e \<longrightarrow> Some e \<in> set (faults w))"
      by (rule mp)
    from c gone have c': "alertRules (snd (AlertRuleReconciler_Reconcile req w)) = alertRules w \<and>
        deployments (snd (AlertRuleReconciler_Reconcile req w)) = deployments w \<and>
        (\<forall>k. prometheusRules (snd (AlertRuleReconciler_Reconcile req w)) k = prometheusRules w k \<or>
             prometheusRules (snd (AlertRuleReconciler_Reconcile req w)) k = None)"
      by (rule mp)
    show "fst (AlertRuleReconciler_Reconcile req w) \<noteq> Some NotFound \<and>
        (\<forall>e. fst (AlertRuleReconciler_Reconcile req w) = Some e \<longrightarrow> Some e \<in> set (faults w)) \<and>
        alertRules (snd (AlertRuleReconciler_Reconcile req w)) = alertRules w \<and>
        deployments (snd (AlertRuleReconciler_Reconcile req w)) = deployments w \<and>
        (\<forall>k. prometheusRules (snd (AlertRuleReconciler_Reconcile req w)) k = prometheusRules w k \<or>
             prometheusRules (snd (AlertRuleReconciler_Reconcile req w)) k = None)"
      by (rule conjI [OF conjunct1 [OF b'] conjI [OF conjunct2 [OF b'] c']])
  qed
  show ?thesis
    apply (intro conjI)
        apply (rule a)
       apply (rule bc)
      apply (rule d)
     apply (rule e)
    apply (rule f)
    done
qed

theorem deletion_fallback_witness:
  "prometheusRules shop_racing (''shop'', ''checkout-alert'') = Some orphan_rule \<and>
   faults shop_racing = [None, None, Some NotFound] \<and>
   fst (AlertRuleReconciler_Reconcile (''shop'', ''checkout-alert'') shop_racing) = None \<and>
   prometheusRules shop_orphaned (''shop'', ''checkout-alert'') = Some orphan_rule \<and>
   (\<exists>w'. AlertRuleReconciler_Reconcile (''shop'', ''checkout-alert'') shop_orphaned = (None, w') \<and>
         prometheusRules w' (''shop'', ''checkout-alert'') = None \<and>
         AlertRuleReconciler_Reconcile (''shop'', ''checkout-alert'') w' = (None, w')) \<and>
   cm_Reconcile (''shop'', ''web'') (web_orphaned\<lparr>cm_faults := [Some NotFound]\<rparr>)
     = (None, web_orphaned) \<and>
   cm_Reconcile (''shop'', ''web'') web_orphaned = (None, web_orphaned)"
proof -
  have r: "alertRules shop_racing (''shop'', ''checkout-alert'') = None"
      "\<forall>f \<in> set (faults shop_racing). f = None \<or> f = Some NotFound"
      "prometheusRules shop_racing (''shop'', ''checkout-alert'') = Some orphan_rule"
      "faults shop_racing = [None, None, Some NotFound]"
    by (simp_all add: shop_racing_def shop_orphaned_def)
  have h: "faults shop_orphaned = []"
      "alertRules shop_orphaned (''shop'', ''checkout-alert'') = None"
      "\<forall>p. prometheusRules shop_orphaned (''shop'', ''checkout-alert'') = Some p \<longrightarrow>
           (pr_Namespace p, pr_Name p) = (''shop'', ''checkout-alert'')"
      "prometheusRules shop_orphaned (''shop'', ''checkout-alert'') = Some orphan_rule"
    by (simp_all add: shop_orphaned_def orphan_rule_def createPrometheusRule_def
          checkout_alert_def Let_def)
  have h2: "cm_faults web_orphaned = []" "rulesAlertRules web_orphaned (''shop'', ''web'') = None"
    by (simp_all add: web_orphaned_def)
  have h3: "rulesAlertRules (web_orphaned\<lparr>cm_faults := [Some NotFound]\<rparr>) (''shop'', ''web'') = None"
      "peek_fault (cm_faults (web_orphaned\<lparr>cm_faults := [Some NotFound]\<rparr>)) = Some NotFound"
      "(web_orphaned\<lparr>cm_faults := [Some NotFound]\<rparr>)
          \<lparr>cm_faults := tl (cm_faults (web_orphaned\<lparr>cm_faults := [Some NotFound]\<rparr>))\<rparr>
        = web_orphaned"
    by (simp_all add: web_orphaned_def peek_fault_def)
  have racing: "fst (AlertRuleReconciler_Reconcile (''shop'', ''checkout-alert'') shop_racing) = None"
    using deletion_fallback [of shop_racing "(''shop'', ''checkout-alert'')"
        "web_orphaned\<lparr>cm_faults := [Some NotFound]\<rparr>" "(''shop'', ''web'')"] r(1,2)
    by blast
  have stale: "cm_Reconcile (''shop'', ''web'') (web_orphaned\<lparr>cm_faults := [Some NotFound]\<rparr>)
                 = (None, web_orphaned)"
    using deletion_fallback [of shop_racing "(''shop'', ''checkout-alert'')"
        "web_orphaned\<lparr>cm_faults := [Some NotFound]\<rparr>" "(''shop'', ''web'')"] h3
    by simp
  have quiet: "(\<exists>w'. AlertRuleReconciler_Reconcile (''shop'', ''checkout-alert'') shop_orphaned = (None, w') \<and>
         prometheusRules w' (''shop'', ''checkout-alert'') = None \<and>
         AlertRuleReconciler_Reconcile (''shop'', ''checkout-alert'') w' = (None, w'))"
      "cm_Reconcile (''shop'', ''web'') web_orphaned = (None, web_orphaned)"
    using deletion_fallback [of shop_orphaned "(''shop'', ''checkout-alert'')" web_orphaned
        "(''shop'', ''web'')"] h h2
    by blast+
  show ?thesis using r(3,4) racing h(4) quiet stale by simp
qed

theorem configmap_reconcile_deletes_nothing:
  "rulesAlertRules web_orphaned (''shop'', ''web'') = None \<and>
   configMaps web_orphaned (''shop'', ''alertrule-web'') \<noteq> None \<and>
   fst (cm_Reconcile (''shop'', ''web'') web_orphaned) = None \<and>
   configMaps (snd (cm_Reconcile (''shop'', ''web'') web_orphaned)) (''shop'', ''alertrule-web'')
     \<noteq> None"
  by (simp add: web_orphaned_def cm_Reconcile_def Get_RulesAlertRule_def cm_next_fault_def
        peek_fault_def store_get_def)

section \<open>Generation never fails\<close>

lemma set_setCondition: "set (setCondition cs n) \<subseteq> insert n (set cs)"
  by (auto simp: setCondition_def split: option.splits dest: set_update_subset_insert [THEN subsetD])

lemma generation_failures_setCondition:
  "c_Reason n \<noteq> ''GenerationFailed'' \<Longrightarrow>
   set (generation_failures (setCondition cs n)) \<subseteq> set (generation_failures cs)"
  using set_setCondition [of cs n] by (auto simp: generation_failures_def)

lemma recorded_failures_upd:
  "rulesAlertRules v' = (rulesAlertRules v)(k \<mapsto> a) \<Longrightarrow>
   recorded_failures v' \<subseteq>
     recorded_failures v \<union> set (generation_failures (st_Conditions (ra_Status a)))"
proof -
  assume e: "rulesAlertRules v' = (rulesAlertRules v)(k \<mapsto> a)"
  have "ran ((rulesAlertRules v)(k \<mapsto> a)) \<subseteq> insert a (ran (rulesAlertRules v))"
    by (auto simp: ran_def split: if_splits)
  then show ?thesis unfolding recorded_failures_def e by auto
qed

lemma recorded_failures_same:
  "rulesAlertRules v' = rulesAlertRules v \<Longrightarrow> recorded_failures v' = recorded_failures v"
  by (simp add: recorded_failures_def)

lemma Status_Update_RulesAlertRule_cases:
  assumes "Status_Update_RulesAlertRule obj v = (e, v')"
  shows "rulesAlertRules v' = rulesAlertRules v \<or>
         (\<exists>stored. rulesAlertRules v' =
            (rulesAlertRules v)((ra_Namespace obj, ra_Name obj) \<mapsto>
               stored\<lparr>ra_Status := ra_Status obj\<rparr>))"
  using assms
  by (auto simp: Status_Update_RulesAlertRule_def cm_next_fault_def split: option.splits)

lemma cm_updateStatus_failures:
  assumes run: "cm_updateStatus r n v = (e, r', v')"
      and other: "c_Reason n \<noteq> ''GenerationFailed''"
  shows "set (generation_failures (st_Conditions (ra_Status r')))
           \<subseteq> set (generation_failures (st_Conditions (ra_Status r)))"
    and "recorded_failures v' \<subseteq>
           recorded_failures v \<union> set (generation_failures (st_Conditions (ra_Status r)))"
proof -
  let ?n = "n\<lparr>c_LastTransitionTime := cm_clock v, c_ObservedGeneration := ra_Generation r\<rparr>"
  let ?r' = "r\<lparr>ra_Status := \<lparr>st_Conditions = setCondition (st_Conditions (ra_Status r)) ?n\<rparr>\<rparr>"
  obtain e0 v0 where su0: "Status_Update_RulesAlertRule ?r' v = (e0, v0)"
    by (cases "Status_Update_RulesAlertRule ?r' v")
  have "cm_updateStatus r n v = (e0, ?r', v0)"
    by (simp add: cm_updateStatus_def Let_def su0)
  then have r': "r' = ?r'" and su: "Status_Update_RulesAlertRule ?r' v = (e, v')"
    using run su0 by simp_all
  have "c_Reason ?n \<noteq> ''GenerationFailed''" using other by simp
  then have sub: "set (generation_failures (st_Conditions (ra_Status ?r')))
           \<subseteq> set (generation_failures (st_Conditions (ra_Status r)))"
    using generation_failures_setCondition [of ?n "st_Conditions (ra_Status r)"] by simp
  show "set (generation_failures (st_Conditions (ra_Status r')))
           \<subseteq> set (generation_failures (st_Conditions (ra_Status r)))"
    using sub r' by simp
  from Status_Update_RulesAlertRule_cases [OF su]
  show "recorded_failures v' \<subseteq>
           recorded_failures v \<union> set (generation_failures (st_Conditions (ra_Status r)))"
  proof
    assume "rulesAlertRules v' = rulesAlertRules v"
    then have "recorded_failures v' = recorded_failures v" by (rule recorded_failures_same)
    then show ?thesis by simp
  next
    assume "\<exists>stored. rulesAlertRules v' =
            (rulesAlertRules v)((ra_Namespace ?r', ra_Name ?r') \<mapsto> stored\<lparr>ra_Status := ra_Status ?r'\<rparr>)"
    then obtain stored where "rulesAlertRules v' =
            (rulesAlertRules v)((ra_Namespace ?r', ra_Name ?r') \<mapsto> stored\<lparr>ra_Status := ra_Status ?r'\<rparr>)"
      by blast
    from recorded_failures_upd [OF this]
    have "recorded_failures v' \<subseteq>
            recorded_failures v \<union> set (generation_failures (st_Conditions (ra_Status ?r')))"
      by simp
    then show ?thesis using sub by blast
  qed
qed

lemma ConfigMap_ops_frame:
  "Get_ConfigMap k v = (g, v1) \<Longrightarrow> rulesAlertRules v1 = rulesAlertRules v"
  "Create_ConfigMap cm v = (e, v2) \<Longrightarrow> rulesAlertRules v2 = rulesAlertRules v"
  "Update_ConfigMap cm v = (e, v3) \<Longrightarrow> rulesAlertRules v3 = rulesAlertRules v"
proof -
  show "Get_ConfigMap k v = (g, v1) \<Longrightarrow> rulesAlertRules v1 = rulesAlertRules v"
    by (auto simp: Get_ConfigMap_def cm_next_fault_def)
  show "Create_ConfigMap cm v = (e, v2) \<Longrightarrow> rulesAlertRules v2 = rulesAlertRules v"
    by (cases "store_create (peek_fault (cm_faults v)) (configMaps v) (cm_Namespace cm, cm_Name cm) cm")
       (auto simp: Create_ConfigMap_def cm_next_fault_def)
  show "Update_ConfigMap cm v = (e, v3) \<Longrightarrow> rulesAlertRules v3 = rulesAlertRules v"
    by (cases "store_update (peek_fault (cm_faults v)) (configMaps v) (cm_Namespace cm, cm_Name cm) cm")
       (auto simp: Update_ConfigMap_def cm_next_fault_def)
qed

lemma Reconcile_upsert_failures:
  assumes run: "Reconcile_upsert r cm v = (e, v')"
  shows "recorded_failures v' \<subseteq>
           recorded_failures v \<union> set (generation_failures (st_Conditions (ra_Status r)))"
proof -
  obtain g v1 where get: "Get_ConfigMap (cm_Namespace cm, cm_Name cm) v = (g, v1)"
    by (cases "Get_ConfigMap (cm_Namespace cm, cm_Name cm) v")
  have s1: "recorded_failures v1 = recorded_failures v"
    using ConfigMap_ops_frame(1) [OF get] by (rule recorded_failures_same)
  show ?thesis
  proof (cases g)
    case (Inl err)
    show ?thesis
    proof (cases "err = NotFound")
      case True
      obtain ce v2 where cr: "Create_ConfigMap cm v1 = (ce, v2)"
        by (cases "Create_ConfigMap cm v1")
      have s2: "recorded_failures v2 = recorded_failures v1"
        using ConfigMap_ops_frame(2) [OF cr] by (rule recorded_failures_same)
      show ?thesis
      proof (cases ce)
        case None
        then have "v' = v2" using run get Inl True cr by (simp add: Reconcile_upsert_def)
        then show ?thesis using s1 s2 by simp
      next
        case (Some cerr)
        obtain ue r2 v3 where us: "cm_updateStatus r
              (mkCondition ''Degraded'' ConditionTrue ''ConfigMapCreationFailed''
                 (''Failed to create ConfigMap: '' @ error_text cerr)) v2 = (ue, r2, v3)"
          by (rule prod_cases3)
        have "v' = v3" using run get Inl True cr Some us by (simp add: Reconcile_upsert_def)
        moreover have "recorded_failures v3 \<subseteq>
            recorded_failures v2 \<union> set (generation_failures (st_Conditions (ra_Status r)))"
          using cm_updateStatus_failures(2) [OF us] by (simp add: mkCondition_def)
        ultimately show ?thesis using s1 s2 by simp
      qed
    next
      case False
      then have "v' = v1" using run get Inl by (simp add: Reconcile_upsert_def)
      then show ?thesis using s1 by simp
    qed
  next
    case (Inr existing)
    obtain ue v2 where up: "Update_ConfigMap
          (existing\<lparr>cm_Data := cm_Data cm, cm_Labels := cm_Labels cm\<rparr>) v1 = (ue, v2)"
      by (cases "Update_ConfigMap (existing\<lparr>cm_Data := cm_Data cm, cm_Labels := cm_Labels cm\<rparr>) v1")
    have s2: "recorded_failures v2 = recorded_failures v1"
      using ConfigMap_ops_frame(3) [OF up] by (rule recorded_failures_same)
    show ?thesis
    proof (cases ue)
      case None
      then have "v' = v2" using run get Inr up by (simp add: Reconcile_upsert_def)
      then show ?thesis using s1 s2 by simp
    next
      case (Some uerr)
      obtain se r2 v3 where us: "cm_updateStatus r
            (mkCondition ''Degraded'' ConditionTrue ''ConfigMapUpdateFailed''
               (''Failed to update ConfigMap: '' @ error_text uerr)) v2 = (se, r2, v3)"
        by (rule prod_cases3)
      have "v' = v3" using run get Inr up Some us by (simp add: Reconcile_upsert_def)
      moreover have "recorded_failures v3 \<subseteq>
          recorded_failures v2 \<union> set (generation_failures (st_Conditions (ra_Status r)))"
        using cm_updateStatus_failures(2) [OF us] by (simp add: mkCondition_def)
      ultimately show ?thesis using s1 s2 by simp
    qed
  qed
qed

lemma generateAlertRulesYAML_ok: "snd (generateAlertRulesYAML alertRule) = None"
  by (simp add: generateAlertRulesYAML_def Let_def)

lemma cm_Reconcile_failures:
  "recorded_failures (snd (cm_Reconcile req v)) \<subseteq> recorded_failures v"
proof -
  obtain g v1 where get: "Get_RulesAlertRule req v = (g, v1)"
    by (cases "Get_RulesAlertRule req v")
  have same1: "rulesAlertRules v1 = rulesAlertRules v"
    using get by (auto simp: Get_RulesAlertRule_def cm_next_fault_def)
  have s1: "recorded_failures v1 = recorded_failures v"
    using same1 by (rule recorded_failures_same)
  show ?thesis
  proof (cases g)
    case (Inl err)
    then have "snd (cm_Reconcile req v) = v1"
      using get by (simp add: cm_Reconcile_def)
    then show ?thesis using s1 by simp
  next
    case (Inr r)
    have "rulesAlertRules v req = Some r"
      using get Inr
      by (auto simp: Get_RulesAlertRule_def cm_next_fault_def store_get_def
            split: option.splits)
    then have "r \<in> ran (rulesAlertRules v)" by (rule ranI)
    then have mem: "set (generation_failures (st_Conditions (ra_Status r))) \<subseteq> recorded_failures v"
      by (auto simp: recorded_failures_def)
    obtain e1 r1 v2 where u1: "cm_updateStatus r
          (mkCondition ''Progressing'' ConditionTrue ''Reconciling'' ''Reconciling AlertRule'') v1
            = (e1, r1, v2)"
      by (rule prod_cases3)
    have m1: "set (generation_failures (st_Conditions (ra_Status r1))) \<subseteq> recorded_failures v"
      and s2: "recorded_failures v2 \<subseteq> recorded_failures v"
      using cm_updateStatus_failures [OF u1] mem s1 by (auto simp: mkCondition_def)
    show ?thesis
    proof (cases e1)
      case (Some err)
      then have "snd (cm_Reconcile req v) = v2"
        using get Inr u1 by (simp add: cm_Reconcile_def)
      then show ?thesis using s2 by simp
    next
      case None
      obtain yaml where y: "generateAlertRulesYAML r1 = (yaml, None)"
        using generateAlertRulesYAML_ok [of r1] by (cases "generateAlertRulesYAML r1") auto
      obtain e2 v3 where up: "Reconcile_upsert r1 (Reconcile_configMap r1 yaml) v2 = (e2, v3)"
        by (cases "Reconcile_upsert r1 (Reconcile_configMap r1 yaml) v2")
      have s3: "recorded_failures v3 \<subseteq> recorded_failures v"
        using Reconcile_upsert_failures [OF up] s2 m1 by auto
      show ?thesis
      proof (cases e2)
        case (Some err)
        then have "snd (cm_Reconcile req v) = v3"
          using get Inr u1 None y up by (simp add: cm_Reconcile_def Let_def)
        then show ?thesis using s3 by simp
      next
        case None2: None
        obtain e3 r3 v4 where u3: "cm_updateStatus r1
              (mkCondition ''Available'' ConditionTrue ''Reconciled''
                 (''AlertRule reconciled successfully. ConfigMap: '' @ ''alertrule-'' @ ra_Name r1))
              v3 = (e3, r3, v4)"
          by (rule prod_cases3)
        have s4: "recorded_failures v4 \<subseteq> recorded_failures v"
          using cm_updateStatus_failures(2) [OF u3] s3 m1 by (auto simp: mkCondition_def)
        have "snd (cm_Reconcile req v) = v4"
          using get Inr u1 None y up None2 u3
          by (cases e3) (simp_all add: cm_Reconcile_def Let_def)
        then show ?thesis using s4 by simp
      qed
    qed
  qed
qed

text \<open>
  Claim C10. \<^verbatim>\<open>generateAlertRulesYAML\<close> returns no error for any AlertRule; for an empty
  rules list its text is the header alone. So the branch of \<^verbatim>\<open>Reconcile\<close> that records
  the reason \<^verbatim>\<open>GenerationFailed\<close> is never taken: whatever the store does, every
  condition with that reason found on an AlertRule after a reconcile was on an AlertRule
  before it.
\<close>

theorem generation_never_fails:
  "snd (generateAlertRulesYAML alertRule) = None
   \<and> (rs_Rules (ra_Spec alertRule) = [] \<longrightarrow>
        fst (generateAlertRulesYAML alertRule) =
          ''groups:'' @ newline @ ''- name: '' @ ra_Name alertRule @ newline
          @ ''  rules:'' @ newline)
   \<and> recorded_failures (snd (cm_Reconcile req v)) \<subseteq> recorded_failures v"
  using generateAlertRulesYAML_ok [of alertRule] cm_Reconcile_failures [of req v]
  by (simp add: generateAlertRulesYAML_def Let_def)

theorem generation_never_fails_witness:
  "rs_Rules (ra_Spec (web_rules\<lparr>ra_Spec := \<lparr>rs_Rules = [], rs_TargetDeployment = ''web''\<rparr>\<rparr>)) = [] \<and>
   generateAlertRulesYAML (web_rules\<lparr>ra_Spec := \<lparr>rs_Rules = [], rs_TargetDeployment = ''web''\<rparr>\<rparr>)
     = (''groups:'' @ newline @ ''- name: web'' @ newline @ ''  rules:'' @ newline, None) \<and>
   recorded_failures (snd (cm_Reconcile (''shop'', ''web'') web_cluster)) = {}"
proof -
  have e: "rs_Rules (ra_Spec (web_rules\<lparr>ra_Spec := \<lparr>rs_Rules = [], rs_TargetDeployment = ''web''\<rparr>\<rparr>)) = []"
      "ra_Name (web_rules\<lparr>ra_Spec := \<lparr>rs_Rules = [], rs_TargetDeployment = ''web''\<rparr>\<rparr>) = ''web''"
    by (simp_all add: web_rules_def)
  have r: "ran (rulesAlertRules web_cluster) = {web_rules}"
    by (simp add: web_cluster_def)
  have z: "recorded_failures web_cluster = {}"
    unfolding recorded_failures_def r by (simp add: web_rules_def generation_failures_def)
  show ?thesis
    using generation_never_fails [of "web_rules\<lparr>ra_Spec := \<lparr>rs_Rules = [], rs_TargetDeployment = ''web''\<rparr>\<rparr>"
        "(''shop'', ''web'')" web_cluster] e z
    by (simp add: prod_eq_iff)
qed

end
